theory Spec2Isabelle
  imports Complex_Main
begin

section \<open>Strings\<close>

text \<open>
  A JavaScript string is a sequence of UTF-16 code units, and \<open>length\<close>, \<open>substring\<close>,
  \<open>startsWith\<close> and a regular expression without the \<open>u\<close> flag all count code units.
  A string is therefore modelled as a list of code units, each a natural number.
  \<open>str\<close> reads an ASCII literal as such a list.
\<close>

type_synonym jstring = "nat list"

definition str :: "string \<Rightarrow> jstring" where
  "str s = map of_char s"

definition startsWith :: "jstring \<Rightarrow> jstring \<Rightarrow> bool" where
  "startsWith s p \<longleftrightarrow> take (length p) s = p"

definition endsWith :: "jstring \<Rightarrow> jstring \<Rightarrow> bool" where
  "endsWith s p \<longleftrightarrow> length p \<le> length s \<and> drop (length s - length p) s = p"

text \<open>\<open>s.includes(w)\<close>: \<open>w\<close> occurs in \<open>s\<close> as a contiguous substring.\<close>

fun includes' :: "jstring \<Rightarrow> jstring \<Rightarrow> bool" where
  "includes' [] w = (w = [])"
| "includes' (c # cs) w = (startsWith (c # cs) w \<or> includes' cs w)"

text \<open>
  The class \<open>\s\<close> of a regular expression, which is also what \<open>trim\<close> removes
  (ECMAScript WhiteSpace and LineTerminator), and the line terminators, which the regular
  expression \<open>.\<close> does not match.
\<close>

definition isWhiteSpace :: "nat \<Rightarrow> bool" where
  "isWhiteSpace c \<longleftrightarrow>
     c = 0x9 \<or> c = 0xA \<or> c = 0xB \<or> c = 0xC \<or> c = 0xD \<or> c = 0x20 \<or> c = 0xA0 \<or> c = 0x1680
     \<or> (0x2000 \<le> c \<and> c \<le> 0x200A)
     \<or> c = 0x2028 \<or> c = 0x2029 \<or> c = 0x202F \<or> c = 0x205F \<or> c = 0x3000 \<or> c = 0xFEFF"

definition isLineTerminator :: "nat \<Rightarrow> bool" where
  "isLineTerminator c \<longleftrightarrow> c = 0xA \<or> c = 0xD \<or> c = 0x2028 \<or> c = 0x2029"

definition trim :: "jstring \<Rightarrow> jstring" where
  "trim s = rev (dropWhile isWhiteSpace (rev (dropWhile isWhiteSpace s)))"

definition isDigit :: "nat \<Rightarrow> bool" where
  "isDigit c \<longleftrightarrow> 0x30 \<le> c \<and> c \<le> 0x39"

definition isLowerAZ :: "nat \<Rightarrow> bool" where
  "isLowerAZ c \<longleftrightarrow> 0x61 \<le> c \<and> c \<le> 0x7A"

definition isUpperAZ :: "nat \<Rightarrow> bool" where
  "isUpperAZ c \<longleftrightarrow> 0x41 \<le> c \<and> c \<le> 0x5A"

text \<open>\<open>s.split(d)\<close> for a one-character string \<open>d\<close>: every occurrence separates.\<close>

fun splitOn :: "nat \<Rightarrow> jstring \<Rightarrow> jstring list" where
  "splitOn d [] = [[]]"
| "splitOn d (c # cs) =
     (if c = d then [] # splitOn d cs
      else (case splitOn d cs of [] \<Rightarrow> [[c]] | w # ws \<Rightarrow> (c # w) # ws))"

text \<open>
  \<open>s.split(/[...]+/)\<close> for a character class \<open>sep\<close>: every maximal run of separator
  characters separates, a string that begins or ends with a separator has an empty first
  or last piece, and the empty string gives one empty piece. The flag says that the
  previous character was a separator.
\<close>

fun splitRunsFrom :: "(nat \<Rightarrow> bool) \<Rightarrow> bool \<Rightarrow> jstring \<Rightarrow> jstring list" where
  "splitRunsFrom sep inRun [] = [[]]"
| "splitRunsFrom sep inRun (c # cs) =
     (if sep c then (if inRun then splitRunsFrom sep True cs else [] # splitRunsFrom sep True cs)
      else (case splitRunsFrom sep False cs of [] \<Rightarrow> [[c]] | w # ws \<Rightarrow> (c # w) # ws))"

definition splitRuns :: "(nat \<Rightarrow> bool) \<Rightarrow> jstring \<Rightarrow> jstring list" where
  "splitRuns sep s = splitRunsFrom sep False s"

subsection \<open>Unicode\<close>

text \<open>
  The general categories \<open>\p{L}\<close>, \<open>\p{N}\<close>, \<open>\p{P}\<close> and the case mappings of
  \<open>toLowerCase\<close> and \<open>toUpperCase\<close> are tables of the JavaScript engine. Their ASCII
  part is written out; beyond ASCII they are taken as a parameter, and every theorem
  holds for every value of it.
\<close>

record unicode =
  letter :: "nat \<Rightarrow> bool"
  number :: "nat \<Rightarrow> bool"
  punctuation :: "nat \<Rightarrow> bool"
  lowerCase :: "jstring \<Rightarrow> jstring"
  upperCase :: "jstring \<Rightarrow> jstring"

definition isLetter :: "unicode \<Rightarrow> nat \<Rightarrow> bool" where
  "isLetter U cp = (if cp < 0x80 then isUpperAZ cp \<or> isLowerAZ cp else letter U cp)"

definition isNumber :: "unicode \<Rightarrow> nat \<Rightarrow> bool" where
  "isNumber U cp = (if cp < 0x80 then isDigit cp else number U cp)"

text \<open>ASCII punctuation: \<open>! " # % & ' ( ) * , - . / : ; ? @ [ \ ] _ { }\<close>.\<close>

definition isPunctuation :: "unicode \<Rightarrow> nat \<Rightarrow> bool" where
  "isPunctuation U cp =
     (if cp < 0x80
      then (0x21 \<le> cp \<and> cp \<le> 0x23) \<or> (0x25 \<le> cp \<and> cp \<le> 0x2A) \<or> (0x2C \<le> cp \<and> cp \<le> 0x2F)
           \<or> cp = 0x3A \<or> cp = 0x3B \<or> cp = 0x3F \<or> cp = 0x40
           \<or> (0x5B \<le> cp \<and> cp \<le> 0x5D) \<or> cp = 0x5F \<or> cp = 0x7B \<or> cp = 0x7D
      else punctuation U cp)"

definition isAscii :: "jstring \<Rightarrow> bool" where
  "isAscii s = list_all (\<lambda>c. c < 0x80) s"

definition toLowerCase :: "unicode \<Rightarrow> jstring \<Rightarrow> jstring" where
  "toLowerCase U s =
     (if isAscii s then map (\<lambda>c. if isUpperAZ c then c + 0x20 else c) s else lowerCase U s)"

definition toUpperCase :: "unicode \<Rightarrow> jstring \<Rightarrow> jstring" where
  "toUpperCase U s =
     (if isAscii s then map (\<lambda>c. if isLowerAZ c then c - 0x20 else c) s else upperCase U s)"

text \<open>
  A regular expression with the \<open>u\<close> flag reads the string by code points: a high
  surrogate followed by a low surrogate is one character. \<open>codePoints\<close> gives every
  code point with the code units that spell it.
\<close>

fun codePoints :: "jstring \<Rightarrow> (nat \<times> jstring) list" where
  "codePoints [] = []"
| "codePoints [c] = [(c, [c])]"
| "codePoints (h # l # rest) =
     (if 0xD800 \<le> h \<and> h \<le> 0xDBFF \<and> 0xDC00 \<le> l \<and> l \<le> 0xDFFF
      then (0x10000 + (h - 0xD800) * 0x400 + (l - 0xDC00), [h, l]) # codePoints rest
      else (h, [h]) # codePoints (l # rest))"

text \<open>Tables with nothing beyond ASCII, for running the definitions on ASCII input.\<close>

definition basicLatin :: unicode where
  "basicLatin = \<lparr>letter = (\<lambda>c. False), number = (\<lambda>c. False), punctuation = (\<lambda>c. False),
     lowerCase = (\<lambda>s. s), upperCase = (\<lambda>s. s)\<rparr>"

section \<open>Data model\<close>

text \<open>\<open>ParsedLine\<close> of \<open>utils/scriptParsing.ts\<close>.\<close>

record ParsedLine =
  original :: jstring
  speakerRaw :: jstring
  speakerClean :: jstring
  metadata :: jstring
  dialogue :: jstring

text \<open>The anonymous type \<open>{ speaker: string; text: string }\<close> of \<open>generateDramaAudio\<close>.\<close>

record DialogueSegment =
  speaker :: jstring
  text' :: jstring

section \<open>Name sanitizer\<close>

text \<open>
  \<open>closeParen cs\<close> reads \<open>.*?\)\<close> at the start of \<open>cs\<close>: the index of the first
  \<open>)\<close>, provided that no line terminator comes before it.
\<close>

fun closeParen :: "jstring \<Rightarrow> nat option" where
  "closeParen [] = None"
| "closeParen (c # cs) =
     (if c = 0x29 then Some 0
      else if isLineTerminator c then None
      else map_option Suc (closeParen cs))"

text \<open>\<open>s.replace(/\(.*?\)/g, '')\<close>: matches are found from left to right and do not overlap.\<close>

fun removeParens :: "jstring \<Rightarrow> jstring" where
  "removeParens [] = []"
| "removeParens (c # cs) =
     (if c = 0x28
      then (case closeParen cs of
              None \<Rightarrow> c # removeParens cs
            | Some n \<Rightarrow> removeParens (drop (Suc n) cs))
      else c # removeParens cs)"

text \<open>\<open>s.match(/\((.*?)\)/g)\<close>: the matched substrings, parentheses included.\<close>

fun parenMatches :: "jstring \<Rightarrow> jstring list" where
  "parenMatches [] = []"
| "parenMatches (c # cs) =
     (if c = 0x28
      then (case closeParen cs of
              None \<Rightarrow> parenMatches cs
            | Some n \<Rightarrow> (c # take (Suc n) cs) # parenMatches (drop (Suc n) cs))
      else parenMatches cs)"

text \<open>
  The character class of the separator patterns, as the source file spells it: the
  hyphen-minus and the code units U+00E2, U+20AC, U+201D and U+201C.
\<close>

definition isSeparatorChar :: "nat \<Rightarrow> bool" where
  "isSeparatorChar c \<longleftrightarrow> c = 0x2D \<or> c = 0xE2 \<or> c = 0x20AC \<or> c = 0x201D \<or> c = 0x201C"

text \<open>
  \<open>separatorAt s\<close>: the pattern \<open>\s+[...]\s+\<close> matches at the start of \<open>s\<close>.
  \<open>separatorIndex s\<close> is the \<open>index\<close> of \<open>s.match(...)\<close>, the leftmost position of a
  match, and \<open>None\<close> when \<open>match\<close> returns \<open>null\<close>.
\<close>

definition separatorAt :: "jstring \<Rightarrow> bool" where
  "separatorAt s =
     (case s of
        [] \<Rightarrow> False
      | c # cs \<Rightarrow>
          isWhiteSpace c \<and>
          (case dropWhile isWhiteSpace cs of
             d # w # rest \<Rightarrow> isSeparatorChar d \<and> isWhiteSpace w
           | _ \<Rightarrow> False))"

fun separatorIndex :: "jstring \<Rightarrow> nat option" where
  "separatorIndex [] = None"
| "separatorIndex (c # cs) =
     (if separatorAt (c # cs) then Some 0 else map_option Suc (separatorIndex cs))"

text \<open>The characters that \<open>/[^\p{L}\p{N}\s'-]/gu\<close> leaves in place.\<close>

definition keptInName :: "unicode \<Rightarrow> nat \<Rightarrow> bool" where
  "keptInName U cp \<longleftrightarrow> isLetter U cp \<or> isNumber U cp \<or> isWhiteSpace cp \<or> cp = 0x27 \<or> cp = 0x2D"

definition stripSymbols :: "unicode \<Rightarrow> jstring \<Rightarrow> jstring" where
  "stripSymbols U s = concat (map snd (filter (\<lambda>p. keptInName U (fst p)) (codePoints s)))"

text \<open>
  \<open>cleanSpeakerName\<close>. The test \<open>separatorMatch && separatorMatch.index\<close> is false
  for a missing match and for the index 0.
\<close>

definition cleanSpeakerName :: "unicode \<Rightarrow> jstring \<Rightarrow> jstring" where
  "cleanSpeakerName U raw =
     (let name = removeParens raw;
          name = (case separatorIndex name of
                    None \<Rightarrow> name
                  | Some index \<Rightarrow> if index \<noteq> 0 then take index name else name);
          name = stripSymbols U name
      in trim name)"

section \<open>Metadata classifier\<close>

definition startsWithBanned :: "jstring list" where
  "startsWithBanned = map str
     [''scene'', ''act'', ''act:'',
      ''cue'', ''sound'', ''fx'', ''lighting'',
      ''camera'', ''cut to'', ''fade'',
      ''narrator opening'', ''closing'', ''entry'', ''exit'',
      ''int.'', ''ext.'', ''est.'',
      ''total'',
      ''time'', ''date'', ''setting'', ''location'', ''place'',
      ''drama'', ''dance'', ''duration'',
      ''order'', ''gen'', ''gen-z'',
      ''here's'', ''here is'', ''sure'', ''okay'', ''certainly'',
      ''revised'', ''humanized'', ''generated'', ''script'', ''title'', ''synopsis'',
      ''summary'', ''cast'', ''characters'',
      ''note'', ''disclaimer'']"

definition containsBanned :: "jstring list" where
  "containsBanned = map str
     [''transition'', ''background'', ''theme'', ''fade out'', ''fade in'',
      ''music'', ''song'', ''beat'', ''flute'', ''track'',
      ''entry'', ''enters'', ''descends'', ''appear'',
      ''bow'', ''applause'', ''laugh'', ''cheer'', ''crowd'',
      ''end'', ''begin'', ''start'', ''finish'']"

text \<open>
  \<open>/^kw\s*\d+/i\<close> for a lower-case ASCII keyword. Without the \<open>u\<close> flag the \<open>i\<close>
  flag lets an ASCII letter of the pattern match only its own two cases.
\<close>

definition keywordNumber :: "jstring \<Rightarrow> jstring \<Rightarrow> bool" where
  "keywordNumber kw s \<longleftrightarrow>
     map (\<lambda>c. if isUpperAZ c then c + 0x20 else c) (take (length kw) s) = kw \<and>
     (case dropWhile isWhiteSpace (drop (length kw) s) of [] \<Rightarrow> False | d # rest \<Rightarrow> isDigit d)"

text \<open>\<open>/^order\s*#?\d+/i\<close>.\<close>

definition orderNumber :: "jstring \<Rightarrow> bool" where
  "orderNumber s \<longleftrightarrow>
     map (\<lambda>c. if isUpperAZ c then c + 0x20 else c) (take 5 s) = str ''order'' \<and>
     (case dropWhile isWhiteSpace (drop 5 s) of
        [] \<Rightarrow> False
      | d # rest \<Rightarrow>
          if d = 0x23 then (case rest of [] \<Rightarrow> False | e # rest' \<Rightarrow> isDigit e) else isDigit d)"

text \<open>The six rules of \<open>isMetadataLine\<close>, each on the lower-cased and trimmed name.\<close>

definition prefixRule :: "jstring \<Rightarrow> bool" where
  "prefixRule lower =
     list_ex (\<lambda>prefix. lower = prefix \<or> startsWith lower (prefix @ str '' '')) startsWithBanned"

definition substringRule :: "jstring \<Rightarrow> bool" where
  "substringRule lower = list_ex (\<lambda>word. includes' lower word) containsBanned"

definition regexRule :: "jstring \<Rightarrow> bool" where
  "regexRule lower \<longleftrightarrow>
     keywordNumber (str ''act'') lower \<or> keywordNumber (str ''scene'') lower \<or> orderNumber lower"

text \<open>\<open>lower.split(/[\s-]+/)\<close>.\<close>

definition nameWords :: "jstring \<Rightarrow> jstring list" where
  "nameWords lower = splitRuns (\<lambda>c. isWhiteSpace c \<or> c = 0x2D) lower"

definition cueRule :: "jstring \<Rightarrow> bool" where
  "cueRule lower = list_ex (\<lambda>w. w = str ''cue'') (nameWords lower)"

definition lengthRule :: "jstring \<Rightarrow> bool" where
  "lengthRule lower \<longleftrightarrow> 4 < length (nameWords lower)"

definition alphaRule :: "jstring \<Rightarrow> bool" where
  "alphaRule lower \<longleftrightarrow> length (filter isLowerAZ lower) = 0"

definition isMetadataLine :: "unicode \<Rightarrow> jstring \<Rightarrow> bool" where
  "isMetadataLine U name =
     (let lower = trim (toLowerCase U name) in
      if prefixRule lower then True
      else if substringRule lower then True
      else if regexRule lower then True
      else if cueRule lower then True
      else if lengthRule lower then True
      else if alphaRule lower then True
      else False)"

section \<open>Line segmenter\<close>

text \<open>
  \<open>trimmedLine.match(/^([^:]{1,60}):(.*)$/)\<close>: the label is what stands before the first
  colon, of 1 to 60 code units; \<open>.*\<close> has to reach the end of the line, so nothing after
  the colon is a line terminator. The result is the pair of the two groups.
\<close>

definition colonMatch :: "jstring \<Rightarrow> (jstring \<times> jstring) option" where
  "colonMatch trimmedLine =
     (let label = takeWhile (\<lambda>c. c \<noteq> 0x3A) trimmedLine in
      case drop (length label) trimmedLine of
        [] \<Rightarrow> None
      | colon # after \<Rightarrow>
          if 1 \<le> length label \<and> length label \<le> 60 \<and> \<not> list_ex isLineTerminator after
          then Some (label, after) else None)"

text \<open>
  The dash pattern \<open>/^([^...-]{1,50})\s*[...-]\s*(.*)$/\<close>, with the character class of
  \<open>isSeparatorChar\<close>. The separator it finds is the first one of the line. The greedy
  first group takes up to 50 of the code units before it, and \<open>\s*\<close> has to cover what
  is left of them. After the separator \<open>\s*\<close> takes the white space and \<open>.*\<close> has to
  reach the end of the line.
\<close>

definition dashMatch :: "jstring \<Rightarrow> (jstring \<times> jstring) option" where
  "dashMatch trimmedLine =
     (let front = takeWhile (\<lambda>c. \<not> isSeparatorChar c) trimmedLine in
      case drop (length front) trimmedLine of
        [] \<Rightarrow> None
      | dash # after \<Rightarrow>
          (let rest = dropWhile isWhiteSpace after in
           if 1 \<le> length front \<and> list_all isWhiteSpace (drop 50 front)
              \<and> \<not> list_ex isLineTerminator rest
           then Some (take 50 front, rest) else None))"

text \<open>The match of a line: whether it is a dash match, and the two groups.\<close>

definition matchCue :: "jstring \<Rightarrow> (bool \<times> jstring \<times> jstring) option" where
  "matchCue trimmedLine =
     (case colonMatch trimmedLine of
        Some (label, after) \<Rightarrow> Some (False, label, after)
      | None \<Rightarrow>
          (case dashMatch trimmedLine of
             Some (label, after) \<Rightarrow> Some (True, label, after)
           | None \<Rightarrow> None))"

definition commonStarters :: "jstring list" where
  "commonStarters = map str
     [''i'', ''we'', ''you'', ''he'', ''she'', ''it'', ''they'',
      ''the'', ''a'', ''an'', ''this'', ''that'', ''these'', ''those'',
      ''but'', ''and'', ''so'', ''or'', ''because'', ''when'', ''if'', ''then'', ''while'',
      ''what'', ''why'', ''where'', ''who'', ''how'',
      ''wait'', ''look'', ''stop'', ''go'', ''come'', ''listen'', ''no'', ''yes'', ''well'',
      ''total'', ''act'', ''scene'', ''order'']"

definition bioStarters :: "jstring list" where
  "bioStarters = map str
     [''male'', ''female'', ''boy'', ''girl'', ''man'', ''woman'', ''kid'', ''adult'', ''voice'',
      ''character'', ''role'', ''age'', ''narrator'', ''speaker'']"

text \<open>\<open>s.split(/[\s\p{P}]+/u)[0]\<close>: what stands before the first separator.\<close>

definition firstWordOf :: "unicode \<Rightarrow> jstring \<Rightarrow> jstring" where
  "firstWordOf U s =
     concat (map snd (takeWhile (\<lambda>p. \<not> (isWhiteSpace (fst p) \<or> isPunctuation U (fst p)))
       (codePoints s)))"

definition hasDigitOrHash :: "jstring \<Rightarrow> bool" where
  "hasDigitOrHash s = list_ex (\<lambda>c. isDigit c \<or> c = 0x23) s"

definition startsLowerAZ :: "jstring \<Rightarrow> bool" where
  "startsLowerAZ s = (case s of [] \<Rightarrow> False | c # cs \<Rightarrow> isLowerAZ c)"

text \<open>
  The validation of a dash match: the nine rejections, in the order of the source. Every
  one of them ends the iteration with \<open>continue\<close>.
\<close>

definition dashRejected :: "unicode \<Rightarrow> jstring \<Rightarrow> jstring \<Rightarrow> jstring \<Rightarrow> jstring \<Rightarrow> bool" where
  "dashRejected U line raw clean potentialDialogue =
     (if (case line of [] \<Rightarrow> False | c # cs \<Rightarrow> isWhiteSpace c) then True
      else if startsLowerAZ raw then True
      else if hasDigitOrHash raw then True
      else if List.member commonStarters (toLowerCase U (firstWordOf U raw)) then True
      else if 3 < length (splitRuns isWhiteSpace clean) then True
      else if 0 < length potentialDialogue \<and> startsLowerAZ potentialDialogue then True
      else if List.member bioStarters (toLowerCase U (firstWordOf U (trim potentialDialogue)))
        then True
      else if keywordNumber (str ''act'') raw then True
      else
        (let isSpeakerCaps =
               (clean = toUpperCase U clean \<and> list_ex isUpperAZ clean);
             isDialogueCaps =
               (potentialDialogue = toUpperCase U potentialDialogue
                \<and> list_ex isUpperAZ potentialDialogue);
             wordCount = length (splitRuns isWhiteSpace potentialDialogue)
         in isSpeakerCaps \<and> (isDialogueCaps \<or> wordCount < 4)))"

text \<open>
  What the cue part of the loop body does with a non-blank line: \<open>Rejected\<close> when it
  leaves the iteration with \<open>continue\<close> before the speaker test, \<open>Cue\<close> with the new
  \<open>ParsedLine\<close> when the speaker test passes, and \<open>NoCue\<close> when control reaches the
  continuation logic.
\<close>

datatype lineCue = Rejected | Cue ParsedLine | NoCue

definition classifyLine :: "unicode \<Rightarrow> jstring \<Rightarrow> lineCue" where
  "classifyLine U line =
     (case matchCue (trim line) of
        None \<Rightarrow> NoCue
      | Some (isDashMatch, group1, group2) \<Rightarrow>
          (let raw = trim group1;
               potentialDialogue = trim group2
           in if startsWith raw (str ''*'') \<or> startsWith raw (str ''#'')
              then Rejected
              else
                (let clean = cleanSpeakerName U raw in
                 if isDashMatch \<and> dashRejected U line raw clean potentialDialogue
                 then Rejected
                 else if \<not> isDashMatch \<and> hasDigitOrHash raw then Rejected
                 else if clean \<noteq> [] \<and> \<not> isMetadataLine U clean
                 then Cue \<lparr>original = line, speakerRaw = raw,
                            speakerClean = clean,
                            metadata = (case parenMatches raw of
                                          [] \<Rightarrow> []
                                        | m # ms \<Rightarrow> foldl (\<lambda>acc x. acc @ str '' '' @ x) m ms),
                            dialogue = potentialDialogue\<rparr>
                 else NoCue)))"

text \<open>
  The lines that the continuation logic skips. The string literals are those of the source
  file, code unit by code unit.
\<close>

definition skippedContinuation :: "jstring \<Rightarrow> bool" where
  "skippedContinuation trimmedLine \<longleftrightarrow>
     (startsWith trimmedLine (str ''('') \<and> endsWith trimmedLine (str '')''))
     \<or> startsWith trimmedLine [0xF0, 0x178, 0x17D, 0xB5]
     \<or> startsWith trimmedLine [0xF0, 0x178, 0x152, 0x178]
     \<or> startsWith trimmedLine [0xE2, 0xB3]
     \<or> startsWith trimmedLine [0xF0, 0x178, 0x201D, 0xA5]
     \<or> startsWith trimmedLine [0xF0, 0x178, 0x2018, 0x2030]
     \<or> (3 \<le> length trimmedLine \<and> list_all (\<lambda>c. c = 0x2D \<or> c = 0x2A \<or> c = 0x5F) trimmedLine)
     \<or> startsWith trimmedLine [0xC2, 0xB7]"

definition appendDialogue :: "ParsedLine \<Rightarrow> jstring \<Rightarrow> ParsedLine" where
  "appendDialogue currentSpeaker trimmedLine =
     (if dialogue currentSpeaker \<noteq> []
      then currentSpeaker\<lparr>dialogue := dialogue currentSpeaker @ str '' '' @ trimmedLine\<rparr>
      else currentSpeaker\<lparr>dialogue := trimmedLine\<rparr>)"

text \<open>
  One iteration of the loop over the lines, on the state \<open>(parsedLines, currentSpeaker)\<close>.
\<close>

definition parseStep ::
  "unicode \<Rightarrow> ParsedLine list \<times> ParsedLine option \<Rightarrow> jstring
     \<Rightarrow> ParsedLine list \<times> ParsedLine option" where
  "parseStep U state line =
     (let parsedLines = fst state; currentSpeaker = snd state; trimmedLine = trim line in
      if trimmedLine = [] then state
      else
        (case classifyLine U line of
           Rejected \<Rightarrow> state
         | Cue new \<Rightarrow>
             ((case currentSpeaker of None \<Rightarrow> parsedLines | Some cur \<Rightarrow> parsedLines @ [cur]),
              Some new)
         | NoCue \<Rightarrow>
             (case currentSpeaker of
                None \<Rightarrow> state
              | Some cur \<Rightarrow>
                  if skippedContinuation trimmedLine then state
                  else (parsedLines, Some (appendDialogue cur trimmedLine)))))"

definition finalPush :: "ParsedLine list \<times> ParsedLine option \<Rightarrow> ParsedLine list" where
  "finalPush state = (case snd state of None \<Rightarrow> fst state | Some cur \<Rightarrow> fst state @ [cur])"

definition parseScriptContent :: "unicode \<Rightarrow> jstring \<Rightarrow> ParsedLine list" where
  "parseScriptContent U scriptText =
     finalPush (foldl (parseStep U) ([], None) (splitOn 0xA scriptText))"

section \<open>Grouping consecutive lines of one speaker\<close>

text \<open>
  Step 1 of \<open>generateDramaAudio\<close>. \<open>groupLoop segments currentSegment rest\<close> is the
  \<open>for\<close> loop from \<open>i = 1\<close> with the remaining lines \<open>rest\<close>, followed by the final
  \<open>segments.push(currentSegment)\<close>. The function returns \<open>[]\<close> before the loop when
  \<open>rawLines\<close> is empty.
\<close>

fun groupLoop :: "DialogueSegment list \<Rightarrow> DialogueSegment \<Rightarrow> ParsedLine list \<Rightarrow> DialogueSegment list" where
  "groupLoop segments currentSegment [] = segments @ [currentSegment]"
| "groupLoop segments currentSegment (line # rest) =
     (if speakerClean line = speaker currentSegment
      then groupLoop segments
             (currentSegment\<lparr>text' := text' currentSegment @ str '' '' @ dialogue line\<rparr>) rest
      else groupLoop (segments @ [currentSegment])
             \<lparr>speaker = speakerClean line, text' = dialogue line\<rparr> rest)"

definition groupSegments :: "ParsedLine list \<Rightarrow> DialogueSegment list" where
  "groupSegments rawLines =
     (case rawLines of
        [] \<Rightarrow> []
      | first # rest \<Rightarrow> groupLoop [] \<lparr>speaker = speakerClean first, text' = dialogue first\<rparr> rest)"

section \<open>Speech generation\<close>

text \<open>\<open>VoiceName\<close>, \<open>Character\<close>, \<open>AudioSegment\<close> and the traits of \<open>VOICE_META\<close>.\<close>

datatype VoiceName = Puck | Charon | Kore | Fenrir | Zephyr

record Character =
  id' :: jstring
  name :: jstring
  voice :: VoiceName
  pitch :: rat

record AudioSegment =
  audio :: jstring
  speaker' :: jstring

fun voiceTraits :: "VoiceName \<Rightarrow> jstring" where
  "voiceTraits Puck = str ''Mischievous, Tenor''"
| "voiceTraits Charon = str ''Deep, Authoritative''"
| "voiceTraits Kore = str ''Gentle, Soothing''"
| "voiceTraits Fenrir = str ''Gruff, Intense''"
| "voiceTraits Zephyr = str ''Professional, Confident''"

text \<open>
  The speech provider is outside the program. A request is recorded with its text, its
  voice and the two values that the system instruction is built from. The provider is a
  function of the number of requests made so far and of the request: it resolves, with
  or without audio data, or it rejects with an error, of which \<open>Failed\<close> carries the
  text \<open>error.message || JSON.stringify(error)\<close>.
\<close>

record SynthesisRequest =
  requestText :: jstring
  voiceName :: VoiceName
  forSpeaker :: jstring
  persona :: jstring

datatype response = Resolved "jstring option" | Failed jstring

type_synonym provider = "nat \<Rightarrow> SynthesisRequest \<Rightarrow> response"

text \<open>
  What the function throws: an \<open>Error\<close> that the program creates, with its message, or
  the provider's own error, thrown again.
\<close>

datatype error = Error jstring | ProviderError jstring

fun message :: "error \<Rightarrow> jstring" where
  "message (Error m) = m"
| "message (ProviderError m) = m"

definition unassignedVoiceMessage :: "jstring \<Rightarrow> jstring" where
  "unassignedVoiceMessage who =
     str ''Speaker '' @ [0x22] @ who @ [0x22]
     @ str '' is in the script but not assigned a voice. Please use 'Auto-Assign Voices' first.''"

definition rateLimitMessage :: "jstring \<Rightarrow> jstring" where
  "rateLimitMessage who =
     str ''Failed to generate audio for '' @ who
     @ str ''. Rate Limit persistently exceeded. Please try again in a few minutes or use a Paid API Key.''"

text \<open>\<open>characters.forEach(c => voiceMap.set(c.name.toLowerCase(), c.voice))\<close>.\<close>

definition voiceMapOf :: "unicode \<Rightarrow> Character list \<Rightarrow> (jstring \<rightharpoonup> VoiceName)" where
  "voiceMapOf U characters =
     foldl (\<lambda>voiceMap c. voiceMap(toLowerCase U (name c) \<mapsto> voice c)) Map.empty characters"

text \<open>\<open>s.replace(/\s+/g, ' ')\<close>; the flag says that the previous character was white space.\<close>

fun collapseFrom :: "bool \<Rightarrow> jstring \<Rightarrow> jstring" where
  "collapseFrom inRun [] = []"
| "collapseFrom inRun (c # cs) =
     (if isWhiteSpace c then (if inRun then collapseFrom True cs else 0x20 # collapseFrom True cs)
      else c # collapseFrom False cs)"

definition cleanText :: "jstring \<Rightarrow> jstring" where
  "cleanText t = trim (collapseFrom False (removeParens t))"

definition isRateLimit :: "unicode \<Rightarrow> jstring \<Rightarrow> bool" where
  "isRateLimit U errorText =
     (let msg = toLowerCase U errorText in
      includes' msg (str ''429'') \<or> includes' msg (str ''quota'')
      \<or> includes' msg (str ''resource_exhausted'') \<or> includes' msg (str ''overloaded'')
      \<or> includes' msg (str ''503''))"

text \<open>
  The retry loop of one segment, \<open>while (!success && retries < MAX_RETRIES)\<close>, with
  \<open>MAX_RETRIES - retries\<close> as its argument, and the \<open>throw\<close> that follows it. \<open>sent\<close> is
  the list of the requests made so far. The waiting between attempts and the progress
  messages are left out.
\<close>

fun synthesize ::
  "unicode \<Rightarrow> provider \<Rightarrow> SynthesisRequest \<Rightarrow> nat \<Rightarrow> SynthesisRequest list
     \<Rightarrow> SynthesisRequest list \<times> (error + jstring)" where
  "synthesize U api request 0 sent = (sent, Inl (Error (rateLimitMessage (forSpeaker request))))"
| "synthesize U api request (Suc left) sent =
     (let outcome =
            (case api (length sent) request of
               Resolved None \<Rightarrow> Inl (Error (str ''API returned empty audio data''))
             | Resolved (Some audioData) \<Rightarrow>
                 if audioData = [] then Inl (Error (str ''API returned empty audio data''))
                 else Inr audioData
             | Failed errorText \<Rightarrow> Inl (ProviderError errorText))
      in case outcome of
           Inr audioData \<Rightarrow> (sent @ [request], Inr audioData)
         | Inl e \<Rightarrow>
             if isRateLimit U (message e) then synthesize U api request left (sent @ [request])
             else (sent @ [request], Inl e))"

text \<open>The loop over the segments, step 3 of \<open>generateDramaAudio\<close>.\<close>

fun processSegments ::
  "unicode \<Rightarrow> (jstring \<rightharpoonup> VoiceName) \<Rightarrow> provider \<Rightarrow> DialogueSegment list
     \<Rightarrow> SynthesisRequest list \<Rightarrow> AudioSegment list
     \<Rightarrow> SynthesisRequest list \<times> (error + AudioSegment list)" where
  "processSegments U voiceMap api [] sent audioResults = (sent, Inr audioResults)"
| "processSegments U voiceMap api (segment # rest) sent audioResults =
     (case voiceMap (toLowerCase U (speaker segment)) of
        None \<Rightarrow> (sent, Inl (Error (unassignedVoiceMessage (speaker segment))))
      | Some v \<Rightarrow>
          if cleanText (text' segment) = [] then processSegments U voiceMap api rest sent audioResults
          else
            (case synthesize U api
                    \<lparr>requestText = cleanText (text' segment), voiceName = v,
                     forSpeaker = speaker segment, persona = voiceTraits v\<rparr> 10 sent of
               (sent', Inl e) \<Rightarrow> (sent', Inl e)
             | (sent', Inr audioData) \<Rightarrow>
                 processSegments U voiceMap api rest sent'
                   (audioResults @ [\<lparr>audio = audioData, speaker' = speaker segment\<rparr>])))"

text \<open>
  \<open>generateDramaAudio\<close>. \<open>apiKey\<close> is the value of \<open>manualApiKey || process.env.API_KEY\<close>,
  empty when there is none. The result is the list of the requests made and what the
  function returns or throws.
\<close>

definition generateDramaAudio ::
  "unicode \<Rightarrow> jstring \<Rightarrow> jstring \<Rightarrow> Character list \<Rightarrow> provider
     \<Rightarrow> SynthesisRequest list \<times> (error + AudioSegment list)" where
  "generateDramaAudio U apiKey script characters api =
     (if apiKey = [] then ([], Inl (Error (str ''API Key not found. Please select or paste a key.'')))
      else
        (let rawLines = parseScriptContent U script in
         if rawLines = [] then ([], Inr [])
         else processSegments U (voiceMapOf U characters) api (groupSegments rawLines) [] []))"

section \<open>Audio buffers\<close>

text \<open>
  An \<open>AudioBuffer\<close> of the Web Audio API: its length in sample frames, its sample rate
  and one array of samples for each channel. A sample is a finite number, modelled by
  the rational that it is. Copying samples and the arithmetic of the WAV export are exact
  in the source; the arithmetic of \<open>resampleBuffer\<close> is rounded, as written out there.
  \<open>wellFormed\<close> is what holds of every buffer that the API hands out.
\<close>

record AudioBuffer =
  length' :: nat
  sampleRate :: rat
  channelData :: "rat list list"

definition numberOfChannels :: "AudioBuffer \<Rightarrow> nat" where
  "numberOfChannels buffer = length (channelData buffer)"

definition wellFormed :: "AudioBuffer \<Rightarrow> bool" where
  "wellFormed buffer \<longleftrightarrow>
     1 \<le> numberOfChannels buffer \<and> 1 \<le> length' buffer \<and> 0 < sampleRate buffer
     \<and> list_all (\<lambda>channel. length channel = length' buffer) (channelData buffer)"

datatype audioError = NotSupportedError | RangeError

text \<open>
  \<open>context.createBuffer(numberOfChannels, length, sampleRate)\<close>: a silent buffer, or
  \<open>NotSupportedError\<close> when an argument is not positive. The upper limits of an
  implementation (channels, rate, memory) are left out: the program passes the channel
  count and rate of a buffer that exists.
\<close>

definition createBuffer :: "nat \<Rightarrow> int \<Rightarrow> rat \<Rightarrow> audioError + AudioBuffer" where
  "createBuffer channels frames rate =
     (if channels = 0 \<or> frames \<le> 0 \<or> rate \<le> 0 then Inl NotSupportedError
      else Inr \<lparr>length' = nat frames, sampleRate = rate,
                channelData = replicate channels (replicate (nat frames) 0)\<rparr>)"

subsection \<open>Concatenation\<close>

text \<open>\<open>target.set(source, offset)\<close> of a typed array.\<close>

definition setAt :: "rat list \<Rightarrow> rat list \<Rightarrow> nat \<Rightarrow> audioError + rat list" where
  "setAt target source offset =
     (if length target < offset + length source then Inl RangeError
      else Inr (take offset target @ source @ drop (offset + length source) target))"

text \<open>
  The loop over the channels of the result for one input buffer; \<open>channel\<close> is the index
  of the first of the result's channels that are still to be written.
\<close>

fun writeChannels ::
  "AudioBuffer \<Rightarrow> nat \<Rightarrow> nat \<Rightarrow> rat list list \<Rightarrow> audioError + rat list list" where
  "writeChannels buffer offset channel [] = Inr []"
| "writeChannels buffer offset channel (resultData # remaining) =
     (case (if channel < numberOfChannels buffer
            then setAt resultData (channelData buffer ! channel) offset
            else if numberOfChannels buffer = 1
            then setAt resultData (channelData buffer ! 0) offset
            else Inr resultData) of
        Inl e \<Rightarrow> Inl e
      | Inr written \<Rightarrow>
          (case writeChannels buffer offset (Suc channel) remaining of
             Inl e \<Rightarrow> Inl e
           | Inr others \<Rightarrow> Inr (written # others)))"

fun concatLoop :: "AudioBuffer list \<Rightarrow> nat \<Rightarrow> rat list list \<Rightarrow> audioError + rat list list" where
  "concatLoop [] offset resultChannels = Inr resultChannels"
| "concatLoop (buffer # rest) offset resultChannels =
     (case writeChannels buffer offset 0 resultChannels of
        Inl e \<Rightarrow> Inl e
      | Inr written \<Rightarrow> concatLoop rest (offset + length' buffer) written)"

text \<open>\<open>concatenateAudioBuffers\<close>; \<open>contextRate\<close> is \<open>context.sampleRate\<close>.\<close>

definition concatenateAudioBuffers :: "rat \<Rightarrow> AudioBuffer list \<Rightarrow> audioError + AudioBuffer" where
  "concatenateAudioBuffers contextRate buffers =
     (case buffers of
        [] \<Rightarrow> createBuffer 1 1 contextRate
      | first # others \<Rightarrow>
          (let totalLength = foldl (\<lambda>acc b. acc + length' b) 0 buffers in
           case createBuffer (numberOfChannels first) (int totalLength) (sampleRate first) of
             Inl e \<Rightarrow> Inl e
           | Inr result \<Rightarrow>
               (case concatLoop buffers 0 (channelData result) of
                  Inl e \<Rightarrow> Inl e
                | Inr written \<Rightarrow> Inr (result\<lparr>channelData := written\<rparr>))))"

subsection \<open>Resampling\<close>

text \<open>
  The arithmetic of \<open>resampleBuffer\<close> is that of JavaScript numbers: every operation
  gives the binary64 number nearest to the exact result, a tie going to the even
  significand, and a store into a \<open>Float32Array\<close> rounds to binary32 in the same way.
  Numbers are modelled by the rationals that they are. \<open>roundHalfEven\<close> rounds to an
  integer, \<open>exponent x\<close> is the \<open>e\<close> with \<open>2^e \<le> x < 2^(e+1)\<close> for a
  positive \<open>x\<close>, and \<open>roundBinary precision emin\<close> rounds to a significand of
  \<open>precision\<close> bits, where \<open>2^emin\<close> is the smallest positive number of the format.
  Overflow is left out: no number of \<open>resampleBuffer\<close> is near the largest binary64
  number. The length of a buffer is below \<open>2^32\<close> and is an exact binary64 number.
\<close>

definition roundHalfEven :: "rat \<Rightarrow> int" where
  "roundHalfEven m =
     (let f = \<lfloor>m\<rfloor>; r = m - of_int f in
      if r < 1 / 2 then f else if 1 / 2 < r then f + 1 else if even f then f else f + 1)"

function expoUp :: "rat \<Rightarrow> int" where
  "expoUp x = (if 2 \<le> x then expoUp (x / 2) + 1 else 0)"
  by pat_completeness auto
termination
proof (relation "measure (\<lambda>x. nat \<lfloor>x\<rfloor>)")
  show "wf (measure (\<lambda>x :: rat. nat \<lfloor>x\<rfloor>))" by simp
next
  fix x :: rat
  assume x: "2 \<le> x"
  have "x / 2 \<le> x - 1" using x by simp
  then have "\<lfloor>x / 2\<rfloor> \<le> \<lfloor>x - 1\<rfloor>" by (rule floor_mono)
  moreover have "1 \<le> \<lfloor>x\<rfloor>" using x by (simp add: le_floor_iff)
  ultimately show "(x / 2, x) \<in> measure (\<lambda>x. nat \<lfloor>x\<rfloor>)" by simp
qed

function expoDown :: "rat \<Rightarrow> int" where
  "expoDown x = (if 0 < x \<and> x < 1 then expoDown (2 * x) - 1 else 0)"
  by pat_completeness auto
termination
proof (relation "measure (\<lambda>x. nat \<lfloor>1 / x\<rfloor>)")
  show "wf (measure (\<lambda>x :: rat. nat \<lfloor>1 / x\<rfloor>))" by simp
next
  fix x :: rat
  assume x: "0 < x \<and> x < 1"
  let ?y = "1 / x"
  have y: "1 < ?y" using x by simp
  then have fl: "1 \<le> \<lfloor>?y\<rfloor>" by (simp add: le_floor_iff)
  have "?y < of_int (\<lfloor>?y\<rfloor> + 1)" using floor_correct [of ?y] by blast
  then have "?y / 2 < of_int (\<lfloor>?y\<rfloor> + 1) / 2" by (simp add: divide_strict_right_mono)
  also have "\<dots> \<le> of_int \<lfloor>?y\<rfloor>" using fl by simp
  finally have half: "\<lfloor>?y / 2\<rfloor> < \<lfloor>?y\<rfloor>" by (simp add: floor_less_iff)
  have eq: "1 / (2 * x) = ?y / 2" by simp
  have "nat \<lfloor>1 / (2 * x)\<rfloor> < nat \<lfloor>?y\<rfloor>"
    unfolding eq using half fl by linarith
  then show "(2 * x, x) \<in> measure (\<lambda>x. nat \<lfloor>1 / x\<rfloor>)"
    unfolding in_measure .
qed

declare expoUp.simps [simp del] expoDown.simps [simp del]

definition exponent :: "rat \<Rightarrow> int" where
  "exponent x = (if 1 \<le> x then expoUp x else expoDown x)"

definition roundBinary :: "nat \<Rightarrow> int \<Rightarrow> rat \<Rightarrow> rat" where
  "roundBinary precision emin x =
     (if x = 0 then 0
      else (let ulp = 2 powi (max (exponent \<bar>x\<bar> - (int precision - 1)) emin)
            in sgn x * of_int (roundHalfEven (\<bar>x\<bar> / ulp)) * ulp))"

definition binary64 :: "rat \<Rightarrow> rat" where
  "binary64 x = roundBinary 53 (- 1074) x"

definition binary32 :: "rat \<Rightarrow> rat" where
  "binary32 x = roundBinary 24 (- 149) x"

text \<open>\<open>Math.round\<close>: the nearest integer, a tie going up.\<close>

definition jsRound :: "rat \<Rightarrow> int" where
  "jsRound x = \<lfloor>x + 1 / 2\<rfloor>"

text \<open>
  The body of the inner loop: the sample \<open>output[i]\<close>, as it is stored in the
  \<open>Float32Array\<close> of the new buffer.
\<close>

definition interpolate :: "rat list \<Rightarrow> rat \<Rightarrow> nat \<Rightarrow> rat" where
  "interpolate input rate i =
     (let position = binary64 (of_nat i * rate);
          index = \<lfloor>position\<rfloor>;
          fraction = binary64 (position - of_int index)
      in if int (length input) - 1 \<le> index then binary32 (input ! (length input - 1))
         else binary32
                (binary64 (binary64 (input ! nat index * binary64 (1 - fraction))
                           + binary64 (input ! (nat index + 1) * fraction))))"

text \<open>
  \<open>resampleBuffer\<close>. \<open>newLength\<close> is \<open>Math.round\<close> of the binary64 quotient
  \<open>buffer.length / rate\<close>. The new buffer has \<open>newLength\<close> frames, all of which the
  inner loop writes.
\<close>

definition resampleBuffer :: "AudioBuffer \<Rightarrow> rat \<Rightarrow> audioError + AudioBuffer" where
  "resampleBuffer buffer rate =
     (if rate = 1 then Inr buffer
      else
        (let newLength = jsRound (binary64 (of_nat (length' buffer) / rate)) in
         case createBuffer (numberOfChannels buffer) newLength (sampleRate buffer) of
           Inl e \<Rightarrow> Inl e
         | Inr newBuffer \<Rightarrow>
             Inr (newBuffer\<lparr>channelData :=
                    map (\<lambda>input. map (interpolate input rate) [0..<nat newLength])
                      (channelData buffer)\<rparr>)))"

subsection \<open>WAV export\<close>

text \<open>
  The \<open>DataView\<close> is a list of bytes. \<open>setUint16\<close>, \<open>setUint32\<close> and \<open>setInt16\<close> write
  little-endian (their last argument is \<open>true\<close>) and reduce the value modulo the width.
\<close>

definition setUint16 :: "nat list \<Rightarrow> nat \<Rightarrow> int \<Rightarrow> nat list" where
  "setUint16 view byteOffset v =
     view[byteOffset := nat (v mod 256), byteOffset + 1 := nat (v div 256 mod 256)]"

definition setUint32 :: "nat list \<Rightarrow> nat \<Rightarrow> int \<Rightarrow> nat list" where
  "setUint32 view byteOffset v =
     view[byteOffset := nat (v mod 256), byteOffset + 1 := nat (v div 256 mod 256),
          byteOffset + 2 := nat (v div 65536 mod 256), byteOffset + 3 := nat (v div 16777216 mod 256)]"

definition setInt16 :: "nat list \<Rightarrow> nat \<Rightarrow> int \<Rightarrow> nat list" where
  "setInt16 view byteOffset v = setUint16 view byteOffset (v mod 65536)"

text \<open>\<open>x | 0\<close>: the fraction is dropped, and the integer is reduced to 32 bits, signed.\<close>

definition dropFraction :: "rat \<Rightarrow> int" where
  "dropFraction x = (if x < 0 then - \<lfloor>- x\<rfloor> else \<lfloor>x\<rfloor>)"

definition toInt32 :: "rat \<Rightarrow> int" where
  "toInt32 x = (let m = dropFraction x mod 4294967296 in if 2147483648 \<le> m then m - 4294967296 else m)"

text \<open>The two statements that turn a sample of a channel into the integer that is written.\<close>

definition clamp :: "rat \<Rightarrow> rat" where
  "clamp x = max (- 1) (min 1 x)"

definition scaleSample :: "rat \<Rightarrow> int" where
  "scaleSample x =
     (let sample = clamp x in
      toInt32 (if 1 / 2 + sample < 0 then sample * 32768 else sample * 32767))"

text \<open>
  The inner loop over the channels at the frame \<open>pos\<close>, and the loop
  \<open>while (pos < buffer.length)\<close>. The header has moved \<open>pos\<close> to 44 when the loop starts.
\<close>

fun writeFrame :: "rat list list \<Rightarrow> nat \<Rightarrow> nat \<Rightarrow> nat list \<Rightarrow> nat list \<times> nat" where
  "writeFrame [] pos offset view = (view, offset)"
| "writeFrame (channel # remaining) pos offset view =
     writeFrame remaining pos (offset + 2) (setInt16 view (44 + offset) (scaleSample (channel ! pos)))"

function writeData :: "rat list list \<Rightarrow> nat \<Rightarrow> nat \<Rightarrow> nat \<Rightarrow> nat list \<Rightarrow> nat list" where
  "writeData channels frames pos offset view =
     (if pos < frames
      then (case writeFrame channels pos offset view of
              (view', offset') \<Rightarrow> writeData channels frames (Suc pos) offset' view')
      else view)"
  by pat_completeness auto
termination
  by (relation "measure (\<lambda>(channels, frames, pos, offset, view). frames - pos)") auto

declare writeData.simps [simp del]

definition wavHeader :: "AudioBuffer \<Rightarrow> nat list \<Rightarrow> nat list" where
  "wavHeader buffer view =
     (let numOfChan = int (numberOfChannels buffer);
          total = int (length view);
          rate = \<lfloor>sampleRate buffer\<rfloor>;
          view = setUint32 view 0 0x46464952;
          view = setUint32 view 4 (total - 8);
          view = setUint32 view 8 0x45564157;
          view = setUint32 view 12 0x20746d66;
          view = setUint32 view 16 16;
          view = setUint16 view 20 1;
          view = setUint16 view 22 numOfChan;
          view = setUint32 view 24 rate;
          view = setUint32 view 28 \<lfloor>sampleRate buffer * 2 * of_int numOfChan\<rfloor>;
          view = setUint16 view 32 (numOfChan * 2);
          view = setUint16 view 34 16;
          view = setUint32 view 36 0x61746164;
          view = setUint32 view 40 (total - 40 - 4)
      in view)"

text \<open>\<open>audioBufferToWav\<close>: the bytes of the \<open>Blob\<close>.\<close>

definition audioBufferToWav :: "AudioBuffer \<Rightarrow> nat list" where
  "audioBufferToWav buffer =
     (let numOfChan = numberOfChannels buffer;
          total = length' buffer * numOfChan * 2 + 44;
          view = wavHeader buffer (replicate total 0)
      in writeData (channelData buffer) (length' buffer) 44 0 view)"

section \<open>Notions of the statements\<close>

text \<open>The number of speaker changes in a sequence of lines that follows a line of speaker \<open>s\<close>.\<close>

fun changes :: "jstring \<Rightarrow> ParsedLine list \<Rightarrow> nat" where
  "changes s [] = 0"
| "changes s (line # rest) =
     (if speakerClean line = s then changes s rest else Suc (changes (speakerClean line) rest))"

text \<open>
  An accepted speaker cue: a non-blank line on which the loop body reaches the assignment
  of a new \<open>currentSpeaker\<close>; the value is the \<open>ParsedLine\<close> that it creates.
\<close>

definition acceptedCue :: "unicode \<Rightarrow> jstring \<Rightarrow> ParsedLine option" where
  "acceptedCue U line =
     (if trim line = [] then None
      else (case classifyLine U line of Cue new \<Rightarrow> Some new | Rejected \<Rightarrow> None | NoCue \<Rightarrow> None))"

definition acceptedCues :: "unicode \<Rightarrow> jstring \<Rightarrow> ParsedLine list" where
  "acceptedCues U scriptText = List.map_filter (acceptedCue U) (splitOn 0xA scriptText)"

text \<open>
  Two of the rejections of a cue candidate, as properties of the trimmed line: the label
  of its match starts with \<open>*\<close> or \<open>#\<close>; its match is a colon match and the label
  contains a digit or \<open>#\<close>.
\<close>

definition markdownLabel :: "jstring \<Rightarrow> bool" where
  "markdownLabel trimmedLine =
     (case matchCue trimmedLine of
        None \<Rightarrow> False
      | Some (isDashMatch, group1, group2) \<Rightarrow>
          startsWith (trim group1) (str ''*'') \<or> startsWith (trim group1) (str ''#''))"

definition colonDigitLabel :: "jstring \<Rightarrow> bool" where
  "colonDigitLabel trimmedLine =
     (case matchCue trimmedLine of
        None \<Rightarrow> False
      | Some (isDashMatch, group1, group2) \<Rightarrow> \<not> isDashMatch \<and> hasDigitOrHash (trim group1))"

text \<open>
  The number of maximal runs of separator characters in a string; the flag says that the
  previous character was a separator.
\<close>

fun countRuns :: "(nat \<Rightarrow> bool) \<Rightarrow> bool \<Rightarrow> jstring \<Rightarrow> nat" where
  "countRuns sep inRun [] = 0"
| "countRuns sep inRun (c # cs) =
     (if sep c then (if inRun then 0 else 1) + countRuns sep True cs
      else countRuns sep False cs)"

text \<open>
  A speaker has a casting entry when its name matches the name of a character without
  regard to case, that is, when the two lower-cased names are equal.
\<close>

definition hasCasting :: "unicode \<Rightarrow> Character list \<Rightarrow> jstring \<Rightarrow> bool" where
  "hasCasting U characters who =
     list_ex (\<lambda>c. toLowerCase U (name c) = toLowerCase U who) characters"

text \<open>
  Two providers: one that answers every request with audio data, and one that rejects
  every request with an error that is not a rate limit.
\<close>

definition alwaysAudio :: provider where
  "alwaysAudio n request = Resolved (Some (str ''AAAA''))"

definition alwaysFailing :: provider where
  "alwaysFailing n request = Failed (str ''500 internal'')"

text \<open>
  What one input buffer contributes to the channel \<open>channel\<close> of the concatenation: its
  own channel of this index, its only channel when it is mono, and silence otherwise.
\<close>

definition channelPiece :: "AudioBuffer \<Rightarrow> nat \<Rightarrow> rat list" where
  "channelPiece buffer channel =
     (if channel < numberOfChannels buffer then channelData buffer ! channel
      else if numberOfChannels buffer = 1 then channelData buffer ! 0
      else replicate (length' buffer) 0)"

text \<open>
  The signed 16-bit integer that the two bytes at \<open>k\<close> and \<open>k + 1\<close> spell in
  little-endian order.
\<close>

definition int16At :: "nat list \<Rightarrow> nat \<Rightarrow> int" where
  "int16At bytes k =
     (let u = int (bytes ! k) + 256 * int (bytes ! (k + 1)) in
      if 32768 \<le> u then u - 65536 else u)"

section \<open>Evaluation\<close>

text \<open>The defining equations, for running the definitions on a given input.\<close>

lemmas string_defs = Let_def str_def startsWith_def endsWith_def isWhiteSpace_def
  isLineTerminator_def trim_def isDigit_def isLowerAZ_def isUpperAZ_def splitRuns_def
  isLetter_def isNumber_def isPunctuation_def isAscii_def toLowerCase_def toUpperCase_def
  basicLatin_def

lemmas name_defs = isSeparatorChar_def separatorAt_def keptInName_def stripSymbols_def
  cleanSpeakerName_def

lemmas meta_defs = startsWithBanned_def containsBanned_def keywordNumber_def orderNumber_def
  prefixRule_def substringRule_def regexRule_def nameWords_def cueRule_def lengthRule_def
  alphaRule_def isMetadataLine_def

lemmas parse_defs = colonMatch_def dashMatch_def matchCue_def commonStarters_def
  bioStarters_def firstWordOf_def hasDigitOrHash_def startsLowerAZ_def dashRejected_def
  classifyLine_def skippedContinuation_def appendDialogue_def parseStep_def finalPush_def
  parseScriptContent_def

lemmas gen_defs = groupSegments_def unassignedVoiceMessage_def rateLimitMessage_def
  voiceMapOf_def cleanText_def isRateLimit_def generateDramaAudio_def

lemma floor_rat_numeral:
  "\<lfloor>(numeral a :: rat) / numeral b\<rfloor> = numeral a div numeral b"
  using floor_divide_of_int_eq [of "numeral a" "numeral b", where ?'a = rat] by simp

lemmas float_defs = jsRound_def binary64_def binary32_def roundBinary_def roundHalfEven_def
  exponent_def expoUp.simps expoDown.simps power_int_def Let_def floor_rat_numeral
  power_one_over divide_simps

section \<open>Properties of the grouping\<close>

lemma length_groupLoop:
  "length (groupLoop segments cur rest) = length segments + Suc (changes (speaker cur) rest)"
  by (induction rest arbitrary: segments cur) simp_all

lemma changes_le: "changes s rest \<le> length rest"
  by (induction rest arbitrary: s) (simp_all add: le_SucI)

lemma changes_eq_length:
  "changes s rest = length rest \<longleftrightarrow> distinct_adj (s # map speakerClean rest)"
proof (induction rest arbitrary: s)
  case Nil
  show ?case by simp
next
  case (Cons line rest)
  have "changes s rest \<noteq> Suc (length rest)"
    using changes_le [of s rest] by simp
  with Cons show ?case by auto
qed

text \<open>
  C8. For every sequence of parsed lines the grouping yields at most as many segments as
  there are lines; it yields exactly as many if and only if no two consecutive lines have
  the same \<open>speakerClean\<close> (compared as strings, code unit by code unit); and the empty
  sequence of lines yields the empty sequence of segments.
\<close>

theorem groupSegments_length:
  "length (groupSegments rawLines) \<le> length rawLines
   \<and> (length (groupSegments rawLines) = length rawLines
        \<longleftrightarrow> distinct_adj (map speakerClean rawLines))
   \<and> groupSegments [] = []"
proof (cases rawLines)
  case Nil
  then show ?thesis by (simp add: groupSegments_def)
next
  case (Cons first rest)
  then show ?thesis
    using changes_le [of "speakerClean first" rest]
      changes_eq_length [of "speakerClean first" rest]
    by (simp add: groupSegments_def length_groupLoop)
qed

section \<open>Properties of the line segmenter\<close>

lemma classifyLine_Cue:
  assumes "classifyLine U line = Cue new"
  shows "speakerClean new \<noteq> [] \<and> \<not> isMetadataLine U (speakerClean new)"
  using assms
  by (auto simp: classifyLine_def Let_def split: option.splits prod.splits if_splits)

lemma acceptedCue_valid:
  "acceptedCue U line = Some new
   \<Longrightarrow> speakerClean new \<noteq> [] \<and> \<not> isMetadataLine U (speakerClean new)"
  using classifyLine_Cue [of U line new]
  by (auto simp: acceptedCue_def split: if_splits lineCue.splits)

lemma appendDialogue_speakerClean:
  "speakerClean (appendDialogue cur t) = speakerClean cur"
  by (simp add: appendDialogue_def)

text \<open>One iteration adds the name of the line's cue, if it is one, and no other name.\<close>

lemma parseStep_names:
  "map speakerClean (finalPush (parseStep U state line)) =
   map speakerClean (finalPush state)
   @ (case acceptedCue U line of None \<Rightarrow> [] | Some new \<Rightarrow> [speakerClean new])"
proof (cases state)
  case (Pair parsedLines currentSpeaker)
  show ?thesis
  proof (cases "trim line = []")
    case True
    then show ?thesis by (simp add: parseStep_def acceptedCue_def Let_def)
  next
    case False
    then show ?thesis
      using Pair
      by (cases "classifyLine U line"; cases currentSpeaker)
         (simp_all add: parseStep_def acceptedCue_def finalPush_def Let_def
            appendDialogue_speakerClean)
  qed
qed

lemma parseLoop_names:
  "map speakerClean (finalPush (foldl (parseStep U) state ls)) =
   map speakerClean (finalPush state) @ map speakerClean (List.map_filter (acceptedCue U) ls)"
proof (induction ls arbitrary: state)
  case Nil
  show ?case by simp
next
  case (Cons line ls)
  show ?case
    by (cases "acceptedCue U line") (simp_all add: Cons.IH parseStep_names)
qed

lemma set_map_filter_acceptedCue:
  "new \<in> set (List.map_filter (acceptedCue U) ls) \<Longrightarrow> \<exists>line. acceptedCue U line = Some new"
  by (auto simp: List.map_filter_def)

text \<open>
  C7. For every script, \<open>parseScriptContent\<close> returns as many parsed lines as the script
  has accepted speaker cues, with the names of the cues in their order, and the
  \<open>speakerClean\<close> of every returned line is not empty and is not classified as metadata
  by \<open>isMetadataLine\<close>.
\<close>

theorem parseScriptContent_cues:
  "length (parseScriptContent U scriptText) = length (acceptedCues U scriptText)
   \<and> map speakerClean (parseScriptContent U scriptText)
       = map speakerClean (acceptedCues U scriptText)
   \<and> (\<forall>p \<in> set (parseScriptContent U scriptText).
         speakerClean p \<noteq> [] \<and> \<not> isMetadataLine U (speakerClean p))"
proof -
  have names: "map speakerClean (parseScriptContent U scriptText)
      = map speakerClean (acceptedCues U scriptText)"
  proof -
    have "finalPush ([], None) = []" by (simp add: finalPush_def)
    then show ?thesis
      by (simp add: parseScriptContent_def acceptedCues_def parseLoop_names)
  qed
  have len: "length (parseScriptContent U scriptText) = length (acceptedCues U scriptText)"
    using arg_cong [OF names, of length] by simp
  have valid: "speakerClean p \<noteq> [] \<and> \<not> isMetadataLine U (speakerClean p)"
    if "p \<in> set (parseScriptContent U scriptText)" for p
  proof -
    from that have "speakerClean p \<in> set (map speakerClean (acceptedCues U scriptText))"
      using names by (metis imageI set_map)
    then obtain new where "new \<in> set (acceptedCues U scriptText)"
      and eq: "speakerClean new = speakerClean p" by auto
    then obtain line where "acceptedCue U line = Some new"
      using set_map_filter_acceptedCue unfolding acceptedCues_def by blast
    with acceptedCue_valid eq show ?thesis by metis
  qed
  from names len valid show ?thesis by blast
qed

text \<open>
  The script of two cues \<open>Narrator: The sun rose.\<close> and
  \<open>Hero: I will find the treasure today!\<close>, with a continuation line between them.
\<close>

theorem parseScriptContent_cues_witness:
  "map speakerClean
     (parseScriptContent basicLatin
        (str ''Narrator: The sun rose.'' @ [0xA] @ str ''slowly'' @ [0xA]
         @ str ''Hero: I will find the treasure today!''))
     = [str ''Narrator'', str ''Hero'']
   \<and> length (acceptedCues basicLatin
        (str ''Narrator: The sun rose.'' @ [0xA] @ str ''slowly'' @ [0xA]
         @ str ''Hero: I will find the treasure today!'')) = 2
   \<and> \<not> isMetadataLine basicLatin (str ''Narrator'')
   \<and> \<not> isMetadataLine basicLatin (str ''Hero'')"
proof -
  let ?script = "str ''Narrator: The sun rose.'' @ [0xA] @ str ''slowly'' @ [0xA]
         @ str ''Hero: I will find the treasure today!''"
  have parsed: "parseScriptContent basicLatin ?script
     = [\<lparr>original = str ''Narrator: The sun rose.'', speakerRaw = str ''Narrator'',
          speakerClean = str ''Narrator'', metadata = [],
          dialogue = str ''The sun rose. slowly''\<rparr>,
        \<lparr>original = str ''Hero: I will find the treasure today!'', speakerRaw = str ''Hero'',
          speakerClean = str ''Hero'', metadata = [],
          dialogue = str ''I will find the treasure today!''\<rparr>]"
    by (simp add: string_defs name_defs meta_defs parse_defs)
  have all: "length (acceptedCues basicLatin ?script) = 2
    \<and> (\<forall>p \<in> set (parseScriptContent basicLatin ?script).
         speakerClean p \<noteq> [] \<and> \<not> isMetadataLine basicLatin (speakerClean p))"
    using parseScriptContent_cues [of basicLatin ?script] unfolding parsed by simp
  then have "\<not> isMetadataLine basicLatin (str ''Narrator'')
      \<and> \<not> isMetadataLine basicLatin (str ''Hero'')"
    unfolding parsed by simp
  with all show ?thesis unfolding parsed by simp
qed

section \<open>Rejected cue candidates\<close>

lemma classifyLine_rejected:
  assumes "markdownLabel (trim line) \<or> colonDigitLabel (trim line)"
  shows "classifyLine U line = Rejected"
  using assms
  by (auto simp: classifyLine_def markdownLabel_def colonDigitLabel_def Let_def
      split: option.splits prod.splits)

lemma parseStep_rejected:
  assumes "classifyLine U line = Rejected"
  shows "parseStep U state line = state"
  using assms by (simp add: parseStep_def Let_def)

lemma splitOn_not_Nil: "splitOn d s \<noteq> []"
  by (induction s) (auto split: list.splits)

lemma splitOn_line: "d \<notin> set s \<Longrightarrow> splitOn d s = [s]"
  by (induction s) auto

lemma splitOn_append: "splitOn d (a @ d # b) = splitOn d a @ splitOn d b"
proof (induction a)
  case Nil
  show ?case by simp
next
  case (Cons c a)
  obtain w ws where "splitOn d a = w # ws"
    using splitOn_not_Nil [of d a] by (cases "splitOn d a") auto
  with Cons show ?case by simp
qed

text \<open>
  C1, as the code has it. A non-blank line whose cue candidate is rejected by the markdown
  check of the label or by the digit/\<open>#\<close> check of a colon match is skipped: the
  iteration ends with \<open>continue\<close>, so the list of parsed lines and the active parsed
  line, its dialogue included, stay as they are, the loop over the lines gives the same
  result with and without such a line, and so does \<open>parseScriptContent\<close> on a script
  with and without it.
\<close>

theorem rejected_label_skipped:
  assumes "markdownLabel (trim line) \<or> colonDigitLabel (trim line)"
  shows "parseStep U state line = state
    \<and> foldl (parseStep U) state (front @ line # rest) = foldl (parseStep U) state (front @ rest)
    \<and> (0xA \<notin> set line \<longrightarrow>
         parseScriptContent U (before @ [0xA] @ line @ [0xA] @ after)
           = parseScriptContent U (before @ [0xA] @ after))"
proof -
  have step: "parseStep U s line = s" for s
    using parseStep_rejected [OF classifyLine_rejected [OF assms]] .
  have "parseScriptContent U (before @ [0xA] @ line @ [0xA] @ after)
           = parseScriptContent U (before @ [0xA] @ after)" if "0xA \<notin> set line"
  proof -
    have "splitOn 0xA (before @ [0xA] @ line @ [0xA] @ after)
        = splitOn 0xA before @ line # splitOn 0xA after"
      using splitOn_append [of "0xA" before "line @ [0xA] @ after"]
        splitOn_append [of "0xA" line after] splitOn_line [OF that] by simp
    moreover have "splitOn 0xA (before @ [0xA] @ after) = splitOn 0xA before @ splitOn 0xA after"
      using splitOn_append [of "0xA" before after] by simp
    ultimately show ?thesis
      by (simp add: parseScriptContent_def step)
  qed
  with step show ?thesis by simp
qed

text \<open>
  After \<open>Hero: Hi\<close> the line \<open>ACT 2: The forest\<close> is such a line and \<open>**Hero**: Hi\<close>
  is another.
\<close>

theorem rejected_label_skipped_witness:
  "colonDigitLabel (trim (str ''ACT 2: The forest''))
   \<and> markdownLabel (trim (str ''**Hero**: Hi''))
   \<and> 0xA \<notin> set (str ''ACT 2: The forest'')
   \<and> parseStep basicLatin
        ([], Some \<lparr>original = str ''Hero: Hi'', speakerRaw = str ''Hero'',
                   speakerClean = str ''Hero'', metadata = [], dialogue = str ''Hi''\<rparr>)
        (str ''ACT 2: The forest'')
      = ([], Some \<lparr>original = str ''Hero: Hi'', speakerRaw = str ''Hero'',
                   speakerClean = str ''Hero'', metadata = [], dialogue = str ''Hi''\<rparr>)
   \<and> parseStep basicLatin ([], None) (str ''**Hero**: Hi'') = ([], None)
   \<and> parseScriptContent basicLatin
        (str ''Hero: Hi'' @ [0xA] @ str ''ACT 2: The forest'' @ [0xA] @ str ''Bye'')
      = parseScriptContent basicLatin (str ''Hero: Hi'' @ [0xA] @ str ''Bye'')"
proof -
  have colon: "colonDigitLabel (trim (str ''ACT 2: The forest''))"
    by (simp add: colonDigitLabel_def string_defs parse_defs)
  have markdown: "markdownLabel (trim (str ''**Hero**: Hi''))"
    by (simp add: markdownLabel_def string_defs parse_defs)
  have oneLine: "0xA \<notin> set (str ''ACT 2: The forest'')"
    by (simp add: str_def)
  from colon have first: "markdownLabel (trim (str ''ACT 2: The forest''))
      \<or> colonDigitLabel (trim (str ''ACT 2: The forest''))" by simp
  from markdown have second: "markdownLabel (trim (str ''**Hero**: Hi''))
      \<or> colonDigitLabel (trim (str ''**Hero**: Hi''))" by simp
  from rejected_label_skipped [OF first, of basicLatin _ "[]" "[]" "str ''Hero: Hi''" "str ''Bye''"]
    rejected_label_skipped [OF second, of basicLatin "([], None)" "[]" "[]" "[]" "[]"]
    colon markdown oneLine
  show ?thesis by simp
qed

text \<open>
  The claim as it is stated fails: with \<open>Hero: Hi\<close> active, the line
  \<open>ACT 2: The forest\<close> has a colon match whose label contains a digit and is none of
  the skipped continuation forms, and it is not appended to the dialogue.
\<close>

theorem rejected_label_counterexample:
  "matchCue (trim (str ''ACT 2: The forest'')) = Some (False, str ''ACT 2'', str '' The forest'')
   \<and> hasDigitOrHash (trim (str ''ACT 2''))
   \<and> \<not> skippedContinuation (trim (str ''ACT 2: The forest''))
   \<and> parseStep basicLatin
        ([], Some \<lparr>original = str ''Hero: Hi'', speakerRaw = str ''Hero'',
                   speakerClean = str ''Hero'', metadata = [], dialogue = str ''Hi''\<rparr>)
        (str ''ACT 2: The forest'')
      \<noteq> ([], Some (appendDialogue
                \<lparr>original = str ''Hero: Hi'', speakerRaw = str ''Hero'',
                  speakerClean = str ''Hero'', metadata = [], dialogue = str ''Hi''\<rparr>
                (trim (str ''ACT 2: The forest''))))
   \<and> map dialogue (parseScriptContent basicLatin
        (str ''Hero: Hi'' @ [0xA] @ str ''ACT 2: The forest'')) = [str ''Hi'']"
  by (simp add: string_defs name_defs meta_defs parse_defs)


section \<open>The length heuristic of the classifier\<close>

lemma splitRunsFrom_not_Nil: "splitRunsFrom sep inRun s \<noteq> []"
  by (induction s arbitrary: inRun) (auto split: list.splits)

lemma length_splitRunsFrom:
  "length (splitRunsFrom sep inRun s) = Suc (countRuns sep inRun s)"
proof (induction s arbitrary: inRun)
  case Nil
  show ?case by simp
next
  case (Cons c cs)
  show ?case
  proof (cases "sep c")
    case True
    then show ?thesis by (simp add: Cons.IH)
  next
    case False
    obtain w ws where "splitRunsFrom sep False cs = w # ws"
      using splitRunsFrom_not_Nil [of sep False cs] by (cases "splitRunsFrom sep False cs") auto
    with False Cons.IH [of False] show ?thesis by simp
  qed
qed

text \<open>
  C3, as the code has it. For a name on which the prefix, substring, regular-expression
  and \<open>cue\<close> rules do not match, the length heuristic classifies the name as noise
  exactly when the lower-cased, trimmed name has more than 3 maximal runs of white space or
  hyphens, which is when \<open>split(/[\s-]+/)\<close> gives more than 4 pieces; the other names go
  on to the alpha-emptiness check.
\<close>

theorem lengthRule_runs:
  assumes "lower = trim (toLowerCase U name')"
    and "\<not> prefixRule lower" and "\<not> substringRule lower" and "\<not> regexRule lower"
    and "\<not> cueRule lower"
  shows "(lengthRule lower \<longleftrightarrow> 3 < countRuns (\<lambda>c. isWhiteSpace c \<or> c = 0x2D) False lower)
    \<and> (isMetadataLine U name' \<longleftrightarrow>
          3 < countRuns (\<lambda>c. isWhiteSpace c \<or> c = 0x2D) False lower \<or> alphaRule lower)"
  using assms
  by (auto simp: isMetadataLine_def lengthRule_def nameWords_def splitRuns_def
      length_splitRunsFrom Let_def)


theorem lengthRule_runs_witness:
  "\<not> prefixRule (str ''a-b-c-d-e'') \<and> \<not> substringRule (str ''a-b-c-d-e'')
   \<and> \<not> regexRule (str ''a-b-c-d-e'') \<and> \<not> cueRule (str ''a-b-c-d-e'')
   \<and> countRuns (\<lambda>c. isWhiteSpace c \<or> c = 0x2D) False (str ''a-b-c-d-e'') = 4
   \<and> lengthRule (str ''a-b-c-d-e'')
   \<and> isMetadataLine basicLatin (str ''a-b-c-d-e'')"
proof -
  have lower: "str ''a-b-c-d-e'' = trim (toLowerCase basicLatin (str ''a-b-c-d-e''))"
    by (simp add: string_defs)
  have rules: "\<not> prefixRule (str ''a-b-c-d-e'')" "\<not> substringRule (str ''a-b-c-d-e'')"
    "\<not> regexRule (str ''a-b-c-d-e'')" "\<not> cueRule (str ''a-b-c-d-e'')"
    by (simp_all add: string_defs meta_defs)
  have runs: "countRuns (\<lambda>c. isWhiteSpace c \<or> c = 0x2D) False (str ''a-b-c-d-e'') = 4"
    by (simp add: string_defs)
  from lengthRule_runs [OF lower rules] rules runs show ?thesis by simp
qed

text \<open>
  The claim as it is stated fails: \<open>a-b-c-d-e\<close> is a sanitized name, the first four
  rules do not match it, it is a single white-space-separated word and has letters, and
  the length heuristic classifies it as noise.
\<close>

theorem lengthRule_counterexample:
  "cleanSpeakerName basicLatin (str ''a-b-c-d-e'') = str ''a-b-c-d-e''
   \<and> \<not> prefixRule (trim (toLowerCase basicLatin (str ''a-b-c-d-e'')))
   \<and> \<not> substringRule (trim (toLowerCase basicLatin (str ''a-b-c-d-e'')))
   \<and> \<not> regexRule (trim (toLowerCase basicLatin (str ''a-b-c-d-e'')))
   \<and> \<not> cueRule (trim (toLowerCase basicLatin (str ''a-b-c-d-e'')))
   \<and> length (splitRuns isWhiteSpace (trim (toLowerCase basicLatin (str ''a-b-c-d-e'')))) = 1
   \<and> lengthRule (trim (toLowerCase basicLatin (str ''a-b-c-d-e'')))
   \<and> \<not> alphaRule (trim (toLowerCase basicLatin (str ''a-b-c-d-e'')))
   \<and> isMetadataLine basicLatin (str ''a-b-c-d-e'')"
  by (simp add: string_defs name_defs meta_defs)


section \<open>The separator of the name sanitizer\<close>

text \<open>
  C4 at the label \<open>(aside) - Hero\<close>. With the parenthesized part removed the text is
  \<open> - Hero\<close>, in which the separator stands at index 0. \<open>cleanSpeakerName\<close> does not
  truncate it and returns \<open>- Hero\<close>, where the text before the separator is empty; the
  line \<open>(aside) - Hero: hi\<close> of a script so becomes a parsed line of the speaker
  \<open>- Hero\<close>. A separator at a later index truncates.
\<close>

theorem cleanSpeakerName_leading_separator:
  "removeParens (str ''(aside) - Hero'') = str '' - Hero''
   \<and> separatorIndex (str '' - Hero'') = Some 0
   \<and> cleanSpeakerName U (str ''(aside) - Hero'') = str ''- Hero''
   \<and> map speakerClean (parseScriptContent U (str ''(aside) - Hero: hi'')) = [str ''- Hero'']
   \<and> cleanSpeakerName U (str ''Hero - the brave'') = str ''Hero''"
  by (simp add: string_defs name_defs meta_defs parse_defs)

text \<open>
  The separator class has no em dash (U+2014): a label with an em dash between spaces is
  not truncated, and the filter removes the dash.
\<close>

lemma cleanSpeakerName_em_dash:
  "cleanSpeakerName basicLatin (str ''Hero '' @ [0x2014] @ str '' the brave'')
     = str ''Hero  the brave''"
  by (simp add: string_defs name_defs)

section \<open>Properties of the speech generation\<close>

lemma voiceMap_fold_None:
  "foldl (\<lambda>voiceMap c. voiceMap(toLowerCase U (name c) \<mapsto> voice c)) m characters k = None
   \<longleftrightarrow> m k = None \<and> \<not> list_ex (\<lambda>c. toLowerCase U (name c) = k) characters"
  by (induction characters arbitrary: m) auto

lemma voiceMapOf_None:
  "voiceMapOf U characters (toLowerCase U who) = None \<longleftrightarrow> \<not> hasCasting U characters who"
  by (simp add: voiceMapOf_def hasCasting_def voiceMap_fold_None)

lemma synthesize_sent:
  "set (fst (synthesize U api request left sent)) \<subseteq> set sent \<union> {request}"
proof (induction left arbitrary: sent)
  case 0
  show ?case by auto
next
  case (Suc left)
  show ?case
    using Suc.IH [of "sent @ [request]"]
    by (auto simp: Let_def split: response.splits option.splits sum.splits if_splits)
qed

lemma processSegments_sent:
  "r \<in> set (fst (processSegments U voiceMap api segments sent audioResults))
   \<Longrightarrow> r \<in> set sent \<or> (voiceMap (toLowerCase U (forSpeaker r)) \<noteq> None \<and> requestText r \<noteq> [])"
proof (induction segments arbitrary: sent audioResults)
  case Nil
  then show ?case by simp
next
  case (Cons segment rest)
  show ?case
  proof (cases "voiceMap (toLowerCase U (speaker segment))")
    case None
    with Cons.prems show ?thesis by simp
  next
    case (Some v)
    show ?thesis
    proof (cases "cleanText (text' segment) = []")
      case True
      with Some Cons show ?thesis by simp
    next
      case False
      let ?request = "\<lparr>requestText = cleanText (text' segment), voiceName = v,
                     forSpeaker = speaker segment, persona = voiceTraits v\<rparr>"
      obtain sent' outcome where syn: "synthesize U api ?request 10 sent = (sent', outcome)"
        by (cases "synthesize U api ?request 10 sent") auto
      have sub: "set sent' \<subseteq> set sent \<union> {?request}"
        using synthesize_sent [of U api ?request 10 sent] syn by simp
      have new: "r' \<in> set sent' \<Longrightarrow> r' \<in> set sent
          \<or> (voiceMap (toLowerCase U (forSpeaker r')) \<noteq> None \<and> requestText r' \<noteq> [])" for r'
        using sub Some False by auto
      show ?thesis
      proof (cases outcome)
        case (Inl e)
        with Cons.prems Some False syn new show ?thesis by simp
      next
        case (Inr audioData)
        with Cons.prems Some False syn
        have "r \<in> set (fst (processSegments U voiceMap api rest sent'
            (audioResults @ [\<lparr>audio = audioData, speaker' = speaker segment\<rparr>])))" by simp
        from Cons.IH [OF this] new show ?thesis by blast
      qed
    qed
  qed
qed

lemma processSegments_append:
  "processSegments U voiceMap api (front @ rest) sent audioResults =
     (case processSegments U voiceMap api front sent audioResults of
        (sent', Inl e) \<Rightarrow> (sent', Inl e)
      | (sent', Inr done) \<Rightarrow> processSegments U voiceMap api rest sent' done)"
proof (induction front arbitrary: sent audioResults)
  case Nil
  show ?case by simp
next
  case (Cons segment front)
  show ?case
    by (simp add: Cons.IH split: option.splits prod.splits sum.splits)
qed

text \<open>The first of the ten attempts of a segment.\<close>

lemma synthesize_ten:
  "synthesize U api request 10 sent =
     (let outcome =
            (case api (length sent) request of
               Resolved None \<Rightarrow> Inl (Error (str ''API returned empty audio data''))
             | Resolved (Some audioData) \<Rightarrow>
                 if audioData = [] then Inl (Error (str ''API returned empty audio data''))
                 else Inr audioData
             | Failed errorText \<Rightarrow> Inl (ProviderError errorText))
      in case outcome of
           Inr audioData \<Rightarrow> (sent @ [request], Inr audioData)
         | Inl e \<Rightarrow>
             if isRateLimit U (message e) then synthesize U api request 9 (sent @ [request])
             else (sent @ [request], Inl e))"
  using synthesize.simps(2) [of U api request 9 sent] by simp

text \<open>
  C10, as the code has it. A grouped segment whose speaker has a voice and whose text is
  empty after the removal of the parenthesized parts and the collapsing of white space is
  skipped: the run makes the same requests and returns or throws the same as it does on
  the segments without this one. No request of a run has an empty text.
\<close>

theorem empty_text_skipped:
  assumes "voiceMap (toLowerCase U (speaker segment)) = Some v"
    and "cleanText (text' segment) = []"
  shows "processSegments U voiceMap api (front @ segment # rest) sent audioResults
       = processSegments U voiceMap api (front @ rest) sent audioResults
     \<and> (\<forall>r \<in> set (fst (processSegments U voiceMap api (front @ segment # rest) [] [])).
          requestText r \<noteq> [])"
proof -
  have step: "processSegments U voiceMap api (segment # rest) s d
      = processSegments U voiceMap api rest s d" for s d
    using assms by simp
  have "processSegments U voiceMap api (front @ segment # rest) sent audioResults
       = processSegments U voiceMap api (front @ rest) sent audioResults"
    by (simp add: processSegments_append [of U voiceMap api front] step
        del: processSegments.simps split: prod.splits sum.splits)
  moreover have "\<forall>r \<in> set (fst (processSegments U voiceMap api (front @ segment # rest) [] [])).
          requestText r \<noteq> []"
    using processSegments_sent [of _ U voiceMap api "front @ segment # rest" "[]" "[]"] by auto
  ultimately show ?thesis by simp
qed

text \<open>
  The script of \<open>Hero: (sighs)\<close> and \<open>Bob: Hi\<close> with the characters \<open>HERO\<close> and
  \<open>Bob\<close>: two grouped segments, one request, for \<open>Bob\<close>, and one audio segment.
\<close>

theorem empty_text_skipped_witness:
  "voiceMapOf basicLatin
       [\<lparr>id' = str ''1'', name = str ''HERO'', voice = Puck, pitch = 1\<rparr>,
        \<lparr>id' = str ''2'', name = str ''Bob'', voice = Kore, pitch = 1\<rparr>]
       (toLowerCase basicLatin (str ''Hero'')) = Some Puck
   \<and> cleanText (str ''(sighs)'') = []
   \<and> groupSegments (parseScriptContent basicLatin
        (str ''Hero: (sighs)'' @ [0xA] @ str ''Bob: Hi''))
     = [\<lparr>speaker = str ''Hero'', text' = str ''(sighs)''\<rparr>,
        \<lparr>speaker = str ''Bob'', text' = str ''Hi''\<rparr>]
   \<and> generateDramaAudio basicLatin (str ''key'')
        (str ''Hero: (sighs)'' @ [0xA] @ str ''Bob: Hi'')
        [\<lparr>id' = str ''1'', name = str ''HERO'', voice = Puck, pitch = 1\<rparr>,
         \<lparr>id' = str ''2'', name = str ''Bob'', voice = Kore, pitch = 1\<rparr>] alwaysAudio
     = ([\<lparr>requestText = str ''Hi'', voiceName = Kore, forSpeaker = str ''Bob'',
           persona = voiceTraits Kore\<rparr>],
        Inr [\<lparr>audio = str ''AAAA'', speaker' = str ''Bob''\<rparr>])"
proof -
  let ?cast = "[\<lparr>id' = str ''1'', name = str ''HERO'', voice = Puck, pitch = 1\<rparr>,
        \<lparr>id' = str ''2'', name = str ''Bob'', voice = Kore, pitch = 1\<rparr>]"
  let ?hero = "\<lparr>speaker = str ''Hero'', text' = str ''(sighs)''\<rparr>"
  let ?bob = "\<lparr>speaker = str ''Bob'', text' = str ''Hi''\<rparr>"
  let ?script = "str ''Hero: (sighs)'' @ [0xA] @ str ''Bob: Hi''"
  have v: "voiceMapOf basicLatin ?cast (toLowerCase basicLatin (speaker ?hero)) = Some Puck"
    by (simp add: string_defs gen_defs)
  have t: "cleanText (text' ?hero) = []"
    by (simp add: string_defs gen_defs)
  have grouped: "groupSegments (parseScriptContent basicLatin ?script) = [?hero, ?bob]"
    by (simp add: string_defs name_defs meta_defs parse_defs gen_defs)
  have bob: "processSegments basicLatin (voiceMapOf basicLatin ?cast) alwaysAudio [?bob] [] []
      = ([\<lparr>requestText = str ''Hi'', voiceName = Kore, forSpeaker = str ''Bob'',
           persona = voiceTraits Kore\<rparr>],
        Inr [\<lparr>audio = str ''AAAA'', speaker' = str ''Bob''\<rparr>])"
    by (simp add: string_defs gen_defs alwaysAudio_def synthesize_ten)
  have both: "processSegments basicLatin (voiceMapOf basicLatin ?cast) alwaysAudio
        [?hero, ?bob] [] []
      = processSegments basicLatin (voiceMapOf basicLatin ?cast) alwaysAudio [?bob] [] []"
    using empty_text_skipped [where U = basicLatin and voiceMap = "voiceMapOf basicLatin ?cast"
        and segment = ?hero and v = Puck and api = alwaysAudio and front = "[]"
        and rest = "[?bob]" and sent = "[]" and audioResults = "[]", OF v t]
    by (simp del: processSegments.simps)
  have nonempty: "parseScriptContent basicLatin ?script \<noteq> []"
    using grouped by (auto simp: groupSegments_def)
  have run: "generateDramaAudio basicLatin (str ''key'') ?script ?cast alwaysAudio
      = processSegments basicLatin (voiceMapOf basicLatin ?cast) alwaysAudio [?hero, ?bob] [] []"
    using nonempty grouped by (simp add: generateDramaAudio_def Let_def str_def)
  from v t grouped show ?thesis unfolding run both bob by simp
qed

text \<open>
  The claim as it is stated fails: without a character for \<open>Hero\<close> the same segment,
  whose cleaned text is empty, is not skipped. The voice is looked up first, and the run
  ends with the error of the unassigned voice.
\<close>

theorem empty_text_counterexample:
  "groupSegments (parseScriptContent basicLatin (str ''Hero: (sighs)''))
     = [\<lparr>speaker = str ''Hero'', text' = str ''(sighs)''\<rparr>]
   \<and> cleanText (str ''(sighs)'') = []
   \<and> generateDramaAudio basicLatin (str ''key'') (str ''Hero: (sighs)'') [] alwaysAudio
     = ([], Inl (Error (unassignedVoiceMessage (str ''Hero''))))"
  by (simp add: string_defs name_defs meta_defs parse_defs gen_defs)

text \<open>
  C6, as the code has it. When the segments before a segment have been synthesized or
  skipped without an error, and the speaker of the segment has no casting entry, then
  \<open>generateDramaAudio\<close> throws the error whose message names this speaker and asks for
  the voices to be assigned. The requests made are those of the earlier segments; none
  of them is for this speaker.
\<close>

theorem unassigned_voice_error:
  assumes "apiKey \<noteq> []"
    and "groupSegments (parseScriptContent U script) = front @ segment # rest"
    and "\<not> hasCasting U characters (speaker segment)"
    and "processSegments U (voiceMapOf U characters) api front [] [] = (sent, Inr done)"
  shows "generateDramaAudio U apiKey script characters api
       = (sent, Inl (Error (unassignedVoiceMessage (speaker segment))))
     \<and> (\<forall>r \<in> set sent. forSpeaker r \<noteq> speaker segment)"
proof -
  have none: "voiceMapOf U characters (toLowerCase U (speaker segment)) = None"
    using assms(3) by (simp add: voiceMapOf_None)
  have nonempty: "parseScriptContent U script \<noteq> []"
    using assms(2) by (auto simp: groupSegments_def)
  have "generateDramaAudio U apiKey script characters api
      = processSegments U (voiceMapOf U characters) api (front @ segment # rest) [] []"
    using assms(1,2) nonempty by (simp add: generateDramaAudio_def Let_def)
  also have "\<dots> = (sent, Inl (Error (unassignedVoiceMessage (speaker segment))))"
    using assms(4) none by (simp add: processSegments_append [of _ _ _ front])
  finally have run: "generateDramaAudio U apiKey script characters api
       = (sent, Inl (Error (unassignedVoiceMessage (speaker segment))))" .
  have "forSpeaker r \<noteq> speaker segment" if "r \<in> set sent" for r
  proof -
    from that have "r \<in> set (fst (processSegments U (voiceMapOf U characters) api front [] []))"
      using assms(4) by simp
    from processSegments_sent [OF this]
    have "voiceMapOf U characters (toLowerCase U (forSpeaker r)) \<noteq> None" by simp
    with none show ?thesis by auto
  qed
  with run show ?thesis by blast
qed


text \<open>
  The script of \<open>A: x\<close> and \<open>B: y\<close> with a character for \<open>A\<close> only: one request, for
  \<open>A\<close>, and then the error that names \<open>B\<close>.
\<close>

theorem unassigned_voice_error_witness:
  "\<not> hasCasting basicLatin [\<lparr>id' = str ''1'', name = str ''a'', voice = Puck, pitch = 1\<rparr>] (str ''B'')
   \<and> generateDramaAudio basicLatin (str ''key'') (str ''A: x'' @ [0xA] @ str ''B: y'')
        [\<lparr>id' = str ''1'', name = str ''a'', voice = Puck, pitch = 1\<rparr>] alwaysAudio
     = ([\<lparr>requestText = str ''x'', voiceName = Puck, forSpeaker = str ''A'',
           persona = voiceTraits Puck\<rparr>],
        Inl (Error (unassignedVoiceMessage (str ''B''))))"
proof -
  let ?cast = "[\<lparr>id' = str ''1'', name = str ''a'', voice = Puck, pitch = 1\<rparr>]"
  let ?a = "\<lparr>speaker = str ''A'', text' = str ''x''\<rparr>"
  let ?b = "\<lparr>speaker = str ''B'', text' = str ''y''\<rparr>"
  let ?request = "\<lparr>requestText = str ''x'', voiceName = Puck, forSpeaker = str ''A'',
           persona = voiceTraits Puck\<rparr>"
  have key: "str ''key'' \<noteq> []" by (simp add: str_def)
  have grouped: "groupSegments (parseScriptContent basicLatin (str ''A: x'' @ [0xA] @ str ''B: y''))
      = [?a] @ ?b # []"
    by (simp add: string_defs name_defs meta_defs parse_defs gen_defs)
  have uncast: "\<not> hasCasting basicLatin ?cast (speaker ?b)"
    by (simp add: string_defs hasCasting_def)
  have front: "processSegments basicLatin (voiceMapOf basicLatin ?cast) alwaysAudio [?a] [] []
      = ([?request], Inr [\<lparr>audio = str ''AAAA'', speaker' = str ''A''\<rparr>])"
    by (simp add: string_defs gen_defs alwaysAudio_def synthesize_ten)
  from unassigned_voice_error [OF key grouped uncast front] uncast show ?thesis by simp
qed


text \<open>
  The claim as it is stated fails for a segment that the loop does not reach. \<open>B\<close> has no
  casting entry in either run. In the first the provider rejects the request for \<open>A\<close>
  and that error is thrown; in the second \<open>A\<close> has no casting entry either and the
  message names \<open>A\<close>.
\<close>

theorem unassigned_voice_counterexample:
  "groupSegments (parseScriptContent basicLatin (str ''A: x'' @ [0xA] @ str ''B: y''))
     = [\<lparr>speaker = str ''A'', text' = str ''x''\<rparr>, \<lparr>speaker = str ''B'', text' = str ''y''\<rparr>]
   \<and> hasCasting basicLatin [\<lparr>id' = str ''1'', name = str ''a'', voice = Puck, pitch = 1\<rparr>] (str ''A'')
   \<and> \<not> hasCasting basicLatin [\<lparr>id' = str ''1'', name = str ''a'', voice = Puck, pitch = 1\<rparr>] (str ''B'')
   \<and> generateDramaAudio basicLatin (str ''key'') (str ''A: x'' @ [0xA] @ str ''B: y'')
        [\<lparr>id' = str ''1'', name = str ''a'', voice = Puck, pitch = 1\<rparr>] alwaysFailing
     = ([\<lparr>requestText = str ''x'', voiceName = Puck, forSpeaker = str ''A'',
           persona = voiceTraits Puck\<rparr>],
        Inl (ProviderError (str ''500 internal'')))
   \<and> \<not> hasCasting basicLatin [] (str ''A'') \<and> \<not> hasCasting basicLatin [] (str ''B'')
   \<and> generateDramaAudio basicLatin (str ''key'') (str ''A: x'' @ [0xA] @ str ''B: y'') []
        alwaysAudio
     = ([], Inl (Error (unassignedVoiceMessage (str ''A''))))
   \<and> unassignedVoiceMessage (str ''A'') \<noteq> unassignedVoiceMessage (str ''B'')"
  by (simp add: string_defs name_defs meta_defs parse_defs gen_defs hasCasting_def
      alwaysFailing_def alwaysAudio_def synthesize_ten)

section \<open>Properties of the concatenation\<close>

lemma length_channelPiece:
  "wellFormed buffer \<Longrightarrow> length (channelPiece buffer channel) = length' buffer"
  by (auto simp: channelPiece_def wellFormed_def numberOfChannels_def list_all_length)

lemma setAt_piece:
  assumes "length front = offset" and "length piece = n"
  shows "setAt (front @ replicate (n + k) 0) piece offset = Inr (front @ piece @ replicate k 0)"
  using assms by (simp add: setAt_def replicate_add)

lemma writeChannels_pieces:
  assumes "wellFormed buffer" and "\<forall>c<n. length (front c) = offset"
  shows "writeChannels buffer offset channel
           (map (\<lambda>c. front c @ replicate (length' buffer + k) 0) [channel..<n])
         = Inr (map (\<lambda>c. front c @ channelPiece buffer c @ replicate k 0) [channel..<n])"
proof (induction "n - channel" arbitrary: channel)
  case 0
  then show ?case by simp
next
  case (Suc d)
  then have lt: "channel < n" and d: "d = n - Suc channel" by simp_all
  have upt: "[channel..<n] = channel # [Suc channel..<n]"
    using lt by (simp add: upt_conv_Cons)
  have len: "length (front channel) = offset" using assms(2) lt by simp
  have piece: "length (channelPiece buffer channel) = length' buffer"
    using assms(1) by (rule length_channelPiece)
  have first: "(if channel < numberOfChannels buffer
            then setAt (front channel @ replicate (length' buffer + k) 0)
                   (channelData buffer ! channel) offset
            else if numberOfChannels buffer = 1
            then setAt (front channel @ replicate (length' buffer + k) 0)
                   (channelData buffer ! 0) offset
            else Inr (front channel @ replicate (length' buffer + k) 0))
        = Inr (front channel @ channelPiece buffer channel @ replicate k 0)"
    using setAt_piece [OF len piece, of k] piece
    by (auto simp: channelPiece_def replicate_add)
  show ?case
    unfolding upt list.map writeChannels.simps first
    using Suc.hyps(1) [OF d] by simp
qed

lemma total_fold:
  "foldl (\<lambda>acc b. acc + length' b) a buffers = a + sum_list (map length' buffers)"
  by (induction buffers arbitrary: a) simp_all

lemma concatLoop_pieces:
  assumes "list_all wellFormed buffers" and "\<forall>c<n. length (front c) = offset"
  shows "concatLoop buffers offset
           (map (\<lambda>c. front c @ replicate (sum_list (map length' buffers)) 0) [0..<n])
         = Inr (map (\<lambda>c. front c @ concat (map (\<lambda>b. channelPiece b c) buffers)) [0..<n])"
  using assms
proof (induction buffers arbitrary: front offset)
  case Nil
  show ?case by simp
next
  case (Cons buffer rest)
  then have wf: "wellFormed buffer" and wfs: "list_all wellFormed rest" by simp_all
  have written: "writeChannels buffer offset 0
           (map (\<lambda>c. front c @ replicate (sum_list (map length' (buffer # rest))) 0) [0..<n])
      = Inr (map (\<lambda>c. (front c @ channelPiece buffer c)
                @ replicate (sum_list (map length' rest)) 0) [0..<n])"
    using writeChannels_pieces [OF wf Cons.prems(2), of 0 "sum_list (map length' rest)"]
    by simp
  have fronts: "\<forall>c<n. length (front c @ channelPiece buffer c) = offset + length' buffer"
    using Cons.prems(2) length_channelPiece [OF wf] by simp
  show ?case
    using Cons.IH [OF wfs fronts] written by simp
qed

lemma createBuffer_silent:
  assumes "1 \<le> channels" and "1 \<le> frames" and "0 < rate"
  shows "createBuffer channels (int frames) rate
     = Inr \<lparr>length' = frames, sampleRate = rate,
            channelData = map (\<lambda>c. [] @ replicate frames 0) [0..<channels]\<rparr>"
  using assms by (simp add: createBuffer_def map_replicate_const)

lemma sum_lengths_positive:
  assumes "buffers \<noteq> []" and "list_all wellFormed buffers"
  shows "1 \<le> sum_list (map length' buffers)"
  using assms by (cases buffers) (auto simp: wellFormed_def)

text \<open>
  C5, as the code has it. For every non-empty list of buffers, whether their sample rates
  agree or not, \<open>concatenateAudioBuffers\<close> raises no error: it returns a buffer with the
  sample rate and the channel count of the first buffer, whose length is the sum of the
  lengths and whose channels are the contributions of the buffers in their order, sample
  by sample.
\<close>

theorem concatenate_any_rates:
  assumes "buffers \<noteq> []" and "list_all wellFormed buffers"
  shows "concatenateAudioBuffers contextRate buffers
     = Inr \<lparr>length' = sum_list (map length' buffers),
            sampleRate = sampleRate (hd buffers),
            channelData = map (\<lambda>c. concat (map (\<lambda>b. channelPiece b c) buffers))
                            [0..<numberOfChannels (hd buffers)]\<rparr>"
proof -
  obtain first others where buffers: "buffers = first # others"
    using assms(1) by (cases buffers) auto
  let ?total = "sum_list (map length' buffers)"
  let ?n = "numberOfChannels first"
  have wf: "wellFormed first" using assms(2) buffers by simp
  have total: "1 \<le> ?total" using assms by (rule sum_lengths_positive)
  have created: "createBuffer ?n (int ?total) (sampleRate first)
      = Inr \<lparr>length' = ?total, sampleRate = sampleRate first,
             channelData = map (\<lambda>c. [] @ replicate ?total 0) [0..<?n]\<rparr>"
    using wf total by (simp add: createBuffer_silent wellFormed_def)
  have loop: "concatLoop buffers 0 (map (\<lambda>c. [] @ replicate ?total 0) [0..<?n])
      = Inr (map (\<lambda>c. [] @ concat (map (\<lambda>b. channelPiece b c) buffers)) [0..<?n])"
    by (rule concatLoop_pieces [OF assms(2)]) simp
  have "concatenateAudioBuffers contextRate (first # others)
      = Inr \<lparr>length' = sum_list (map length' (first # others)),
            sampleRate = sampleRate first,
            channelData = map (\<lambda>c. concat (map (\<lambda>b. channelPiece b c) (first # others)))
                            [0..<?n]\<rparr>"
    unfolding concatenateAudioBuffers_def list.case Let_def total_fold
    using created loop unfolding buffers by simp
  then show ?thesis unfolding buffers by simp
qed

text \<open>
  A stereo buffer at 24000 Hz followed by a mono buffer at 48000 Hz: the result is a stereo
  buffer at 24000 Hz, with the mono samples in both channels.
\<close>

theorem concatenate_any_rates_witness:
  "list_all wellFormed
     [\<lparr>length' = 2, sampleRate = 24000, channelData = [[1 / 2, 1 / 4], [- 1 / 2, - 1 / 4]]\<rparr>,
      \<lparr>length' = 1, sampleRate = 48000, channelData = [[1 / 8]]\<rparr>]
   \<and> concatenateAudioBuffers 44100
     [\<lparr>length' = 2, sampleRate = 24000, channelData = [[1 / 2, 1 / 4], [- 1 / 2, - 1 / 4]]\<rparr>,
      \<lparr>length' = 1, sampleRate = 48000, channelData = [[1 / 8]]\<rparr>]
     = Inr \<lparr>length' = 3, sampleRate = 24000,
            channelData = [[1 / 2, 1 / 4, 1 / 8], [- 1 / 2, - 1 / 4, 1 / 8]]\<rparr>"
proof -
  let ?buffers = "[\<lparr>length' = 2, sampleRate = 24000,
        channelData = [[1 / 2, 1 / 4], [- 1 / 2, - 1 / 4]]\<rparr>,
      \<lparr>length' = 1, sampleRate = 48000, channelData = [[1 / 8 :: rat]]\<rparr>]"
  have nonempty: "?buffers \<noteq> []" by simp
  have wf: "list_all wellFormed ?buffers"
    by (simp add: wellFormed_def numberOfChannels_def)
  have two: "[0..<2] = [0, 1]" by (simp add: upt_rec)
  from concatenate_any_rates [OF nonempty wf, of 44100] wf show ?thesis
    by (simp add: channelPiece_def numberOfChannels_def two)
qed

text \<open>
  The claim as it is stated fails: two buffers of different sample rates are
  concatenated into a buffer at the rate of the first, and no error is raised.
\<close>

theorem concatenate_rates_counterexample:
  "sampleRate \<lparr>length' = 1, sampleRate = 24000, channelData = [[1 / 2]]\<rparr>
     \<noteq> sampleRate \<lparr>length' = 1, sampleRate = 48000, channelData = [[1 / 4]]\<rparr>
   \<and> concatenateAudioBuffers 44100
     [\<lparr>length' = 1, sampleRate = 24000, channelData = [[1 / 2]]\<rparr>,
      \<lparr>length' = 1, sampleRate = 48000, channelData = [[1 / 4]]\<rparr>]
     = Inr \<lparr>length' = 2, sampleRate = 24000, channelData = [[1 / 2, 1 / 4]]\<rparr>"
proof -
  have two: "replicate 2 (0 :: rat) = [0, 0]" by (simp add: numeral_2_eq_2)
  show ?thesis
    by (simp add: createBuffer_def numberOfChannels_def concatenateAudioBuffers_def setAt_def two)
qed

section \<open>Properties of the resampling\<close>

lemma roundHalfEven_ge_floor: "\<lfloor>m\<rfloor> \<le> roundHalfEven m"
  by (simp add: roundHalfEven_def Let_def)

lemma expoUp_bounds: "1 \<le> x \<Longrightarrow> 0 \<le> expoUp x \<and> 2 powi expoUp x \<le> x"
proof (induction x rule: expoUp.induct)
  case (1 x)
  show ?case
  proof (cases "2 \<le> x")
    case True
    then have "0 \<le> expoUp (x / 2) \<and> 2 powi expoUp (x / 2) \<le> x / 2"
      using "1.IH" by simp
    moreover have "(2 :: rat) powi (expoUp (x / 2) + 1) = 2 powi expoUp (x / 2) * 2"
      by (simp add: power_int_add)
    ultimately show ?thesis
      using True by (simp add: expoUp.simps [of x])
  next
    case False
    then show ?thesis using "1.prems" by (simp add: expoUp.simps [of x])
  qed
qed

lemma exponent_bounds:
  assumes "1 / 2 \<le> x"
  shows "- 1 \<le> exponent x \<and> 2 powi exponent x \<le> x"
proof (cases "1 \<le> x")
  case True
  then show ?thesis using expoUp_bounds [of x] by (simp add: exponent_def)
next
  case False
  then have "expoDown x = - 1"
    using assms by (simp add: expoDown.simps [of x] expoDown.simps [of "2 * x"])
  then show ?thesis using False assms by (simp add: exponent_def)
qed

lemma binary64_half:
  assumes "1 / 2 \<le> x"
  shows "1 / 2 \<le> binary64 x"
proof -
  let ?e = "exponent x"
  let ?ulp = "(2 :: rat) powi (?e - 52)"
  have e: "- 1 \<le> ?e" and low: "2 powi ?e \<le> x"
    using exponent_bounds [OF assms] by simp_all
  have pos: "0 < x" using assms by simp
  have ulp: "0 < ?ulp" by simp
  have split: "(2 :: rat) powi ?e = ?ulp * 2 powi 52"
    using power_int_add [of "2 :: rat" "?e - 52" 52] by simp
  have "of_int 4503599627370496 * ?ulp \<le> x" using low split by (simp add: mult.commute)
  then have "of_int 4503599627370496 \<le> x / ?ulp"
    using ulp by (simp add: pos_le_divide_eq)
  then have "4503599627370496 \<le> \<lfloor>x / ?ulp\<rfloor>" by (simp add: le_floor_iff)
  then have n: "4503599627370496 \<le> roundHalfEven (x / ?ulp)"
    by (rule order_trans [OF _ roundHalfEven_ge_floor])
  have "(1 / 2 :: rat) = 2 powi (- 1)" by simp
  also have "\<dots> \<le> 2 powi ?e"
    using e by (intro power_int_increasing) simp_all
  also have "\<dots> = of_int 4503599627370496 * ?ulp"
    using split by (simp add: mult.commute)
  also have "\<dots> \<le> of_int (roundHalfEven (x / ?ulp)) * ?ulp"
    using n ulp by (intro mult_right_mono) simp_all
  also have "\<dots> = binary64 x"
    using pos e by (simp add: binary64_def roundBinary_def Let_def max_def)
  finally show ?thesis .
qed


lemma jsRound_positive:
  fixes rate :: rat
  assumes "1 \<le> n" and "0 < rate" and "rate \<le> 6 / 5"
  shows "1 \<le> jsRound (binary64 (of_nat n / rate))"
proof -
  have "rate / 2 \<le> of_nat n" using assms by (simp add: order_trans [of _ 1])
  then have "1 / 2 \<le> (of_nat n :: rat) / rate"
    using assms(2) by (simp add: pos_le_divide_eq)
  then have "1 / 2 \<le> binary64 (of_nat n / rate)" by (rule binary64_half)
  then have "1 \<le> binary64 (of_nat n / rate) + 1 / 2" by linarith
  then show ?thesis unfolding jsRound_def by (simp add: le_floor_iff)
qed

text \<open>
  C9. At the rate 1 \<open>resampleBuffer\<close> returns its argument. For every buffer and every
  other rate from 0.8 to 1.2 it returns a buffer of \<open>round(length / rate)\<close> frames in
  every channel, with the channel count and the sample rate of its argument; the quotient
  is the binary64 quotient of the source and \<open>round\<close> is \<open>Math.round\<close>.
\<close>

theorem resampleBuffer_length:
  "resampleBuffer input 1 = Inr input
   \<and> (wellFormed buffer \<and> 4 / 5 \<le> rate \<and> rate \<le> 6 / 5 \<and> rate \<noteq> 1 \<longrightarrow>
        (\<exists>resampled. resampleBuffer buffer rate = Inr resampled
           \<and> int (length' resampled) = jsRound (binary64 (of_nat (length' buffer) / rate))
           \<and> list_all (\<lambda>channel. int (length channel)
                  = jsRound (binary64 (of_nat (length' buffer) / rate)))
                (channelData resampled)
           \<and> numberOfChannels resampled = numberOfChannels buffer
           \<and> sampleRate resampled = sampleRate buffer))"
proof -
  have unchanged: "resampleBuffer input 1 = Inr input"
    by (simp add: resampleBuffer_def)
  have resampled: "\<exists>resampled. resampleBuffer buffer rate = Inr resampled
           \<and> int (length' resampled) = jsRound (binary64 (of_nat (length' buffer) / rate))
           \<and> list_all (\<lambda>channel. int (length channel)
                  = jsRound (binary64 (of_nat (length' buffer) / rate)))
                (channelData resampled)
           \<and> numberOfChannels resampled = numberOfChannels buffer
           \<and> sampleRate resampled = sampleRate buffer"
    if wf: "wellFormed buffer" and lo: "4 / 5 \<le> rate" and hi: "rate \<le> 6 / 5" and ne: "rate \<noteq> 1"
  proof -
    have pos: "0 < rate" using lo by simp
    have "1 \<le> length' buffer" using wf by (simp add: wellFormed_def)
    from jsRound_positive [OF this pos hi]
    have new: "1 \<le> jsRound (binary64 (of_nat (length' buffer) / rate))" .
    show ?thesis
      using wf ne new
      by (auto simp: resampleBuffer_def createBuffer_def wellFormed_def numberOfChannels_def
          Let_def list_all_length)
  qed
  from unchanged resampled show ?thesis by blast
qed

text \<open>
  The rates are the binary64 numbers nearest to 0.8, 1.12 and 1.2. A mono buffer of 4800
  frames gives 6000 frames at 0.8 and 4000 frames at 1.2; one of 2 frames gives 3 frames
  at 0.8, where the quotient rounds to 2.5; one of 14 frames gives 12 frames at 1.12,
  where the quotient stays below 12.5.
\<close>

theorem resampleBuffer_length_witness:
  "wellFormed \<lparr>length' = 4800, sampleRate = 24000, channelData = [replicate 4800 0]\<rparr>
   \<and> wellFormed \<lparr>length' = 2, sampleRate = 24000, channelData = [[1 / 2, 1 / 4]]\<rparr>
   \<and> wellFormed \<lparr>length' = 14, sampleRate = 24000, channelData = [replicate 14 0]\<rparr>
   \<and> (4 / 5 :: rat) \<le> 3602879701896397 / 4503599627370496
   \<and> (5404319552844595 / 4503599627370496 :: rat) \<le> 6 / 5
   \<and> (\<exists>resampled.
        resampleBuffer \<lparr>length' = 4800, sampleRate = 24000, channelData = [replicate 4800 0]\<rparr>
          (3602879701896397 / 4503599627370496) = Inr resampled
        \<and> length' resampled = 6000 \<and> numberOfChannels resampled = 1
        \<and> sampleRate resampled = 24000)
   \<and> (\<exists>resampled.
        resampleBuffer \<lparr>length' = 4800, sampleRate = 24000, channelData = [replicate 4800 0]\<rparr>
          (5404319552844595 / 4503599627370496) = Inr resampled
        \<and> length' resampled = 4000 \<and> numberOfChannels resampled = 1
        \<and> sampleRate resampled = 24000)
   \<and> (\<exists>resampled.
        resampleBuffer \<lparr>length' = 2, sampleRate = 24000, channelData = [[1 / 2, 1 / 4]]\<rparr>
          (3602879701896397 / 4503599627370496) = Inr resampled
        \<and> length' resampled = 3)
   \<and> (\<exists>resampled.
        resampleBuffer \<lparr>length' = 14, sampleRate = 24000, channelData = [replicate 14 0]\<rparr>
          (1261007895663739 / 1125899906842624) = Inr resampled
        \<and> length' resampled = 12)"
proof -
  let ?long = "\<lparr>length' = 4800, sampleRate = 24000, channelData = [replicate 4800 (0 :: rat)]\<rparr>"
  let ?two = "\<lparr>length' = 2, sampleRate = 24000, channelData = [[1 / 2, 1 / 4 :: rat]]\<rparr>"
  let ?short = "\<lparr>length' = 14, sampleRate = 24000, channelData = [replicate 14 (0 :: rat)]\<rparr>"
  let ?r08 = "3602879701896397 / 4503599627370496 :: rat"
  let ?r112 = "1261007895663739 / 1125899906842624 :: rat"
  let ?r12 = "5404319552844595 / 4503599627370496 :: rat"
  have wf: "wellFormed ?long" "wellFormed ?two" "wellFormed ?short"
    by (simp_all add: wellFormed_def numberOfChannels_def)
  have rates: "4 / 5 \<le> ?r08 \<and> ?r08 \<le> 6 / 5 \<and> ?r08 \<noteq> 1"
    "4 / 5 \<le> ?r112 \<and> ?r112 \<le> 6 / 5 \<and> ?r112 \<noteq> 1"
    "4 / 5 \<le> ?r12 \<and> ?r12 \<le> 6 / 5 \<and> ?r12 \<noteq> 1"
    by simp_all
  have r1: "jsRound (binary64 (of_nat 4800 / ?r08)) = 6000" by (simp add: float_defs)
  have r2: "jsRound (binary64 (of_nat 4800 / ?r12)) = 4000" by (simp add: float_defs)
  have r3: "jsRound (binary64 (of_nat 2 / ?r08)) = 3" by (simp add: float_defs)
  have r4: "jsRound (binary64 (of_nat 14 / ?r112)) = 12" by (simp add: float_defs)
  from resampleBuffer_length [of ?long ?long ?r08] wf rates
  obtain a where a: "resampleBuffer ?long ?r08 = Inr a"
    "int (length' a) = jsRound (binary64 (of_nat (length' ?long) / ?r08))"
    "numberOfChannels a = numberOfChannels ?long" "sampleRate a = sampleRate ?long"
    by blast
  from resampleBuffer_length [of ?long ?long ?r12] wf rates
  obtain b where b: "resampleBuffer ?long ?r12 = Inr b"
    "int (length' b) = jsRound (binary64 (of_nat (length' ?long) / ?r12))"
    "numberOfChannels b = numberOfChannels ?long" "sampleRate b = sampleRate ?long"
    by blast
  from resampleBuffer_length [of ?two ?two ?r08] wf rates
  obtain c where c: "resampleBuffer ?two ?r08 = Inr c"
    "int (length' c) = jsRound (binary64 (of_nat (length' ?two) / ?r08))"
    by blast
  from resampleBuffer_length [of ?short ?short ?r112] wf rates
  obtain d where d: "resampleBuffer ?short ?r112 = Inr d"
    "int (length' d) = jsRound (binary64 (of_nat (length' ?short) / ?r112))"
    by blast
  have "length' a = 6000" using a(2) r1 by simp
  moreover have "length' b = 4000" using b(2) r2 by simp
  moreover have "length' c = 3" using c(2) r3 by simp
  moreover have "length' d = 12" using d(2) r4 by simp
  ultimately show ?thesis
    using wf a b c d by (simp add: numberOfChannels_def)
qed

section \<open>Properties of the WAV export\<close>

lemma neg_mod_eq:
  fixes v :: int
  assumes "v < 0" and "- m \<le> v"
  shows "v mod m = v + m"
proof -
  have "(v + m) mod m = v + m"
    using assms by (intro mod_pos_pos_trivial) simp_all
  then show ?thesis by simp
qed

lemma dropFraction_bounds:
  assumes "of_int lo \<le> x" and "x \<le> of_int hi" and "lo \<le> 0" and "0 \<le> hi"
  shows "lo \<le> dropFraction x \<and> dropFraction x \<le> hi"
proof (cases "x < 0")
  case True
  have eq: "dropFraction x = \<lceil>x\<rceil>" using True by (simp add: dropFraction_def ceiling_def)
  have "lo \<le> \<lceil>x\<rceil>" using assms(1) by (simp add: le_ceiling_iff)
  moreover have "\<lceil>x\<rceil> \<le> 0" using True by (simp add: ceiling_le_iff)
  ultimately show ?thesis using assms(4) unfolding eq by linarith
next
  case False
  then have eq: "dropFraction x = \<lfloor>x\<rfloor>" by (simp add: dropFraction_def)
  have "0 \<le> \<lfloor>x\<rfloor>" using False by simp
  moreover have "\<lfloor>x\<rfloor> \<le> hi" using assms(2) by (simp add: floor_le_iff)
  ultimately show ?thesis using assms(3) unfolding eq by linarith
qed

lemma clamp_bounds: "- 1 \<le> clamp x \<and> clamp x \<le> 1"
  by (simp add: clamp_def)

lemma scaleSample_eq:
  "scaleSample x = dropFraction (if clamp x < - 1 / 2 then clamp x * 32768 else clamp x * 32767)
   \<and> - 32768 \<le> scaleSample x \<and> scaleSample x \<le> 32767"
proof -
  let ?c = "clamp x"
  let ?scaled = "if ?c < - 1 / 2 then ?c * 32768 else ?c * 32767"
  have c: "- 1 \<le> ?c" "?c \<le> 1" using clamp_bounds [of x] by simp_all
  have "of_int (- 32768) \<le> ?scaled" using c by simp
  moreover have "?scaled \<le> of_int 32767" using c by simp
  ultimately have t: "- 32768 \<le> dropFraction ?scaled \<and> dropFraction ?scaled \<le> 32767"
    using dropFraction_bounds [of "- 32768" ?scaled 32767] by simp
  have cond: "(1 / 2 + ?c < 0) = (?c < - 1 / 2)" by auto
  have "scaleSample x = toInt32 ?scaled"
    unfolding scaleSample_def Let_def cond ..
  also have "\<dots> = dropFraction ?scaled"
  proof (cases "0 \<le> dropFraction ?scaled")
    case True
    then have "dropFraction ?scaled mod 4294967296 = dropFraction ?scaled" using t by simp
    then show ?thesis using t True by (simp add: toInt32_def Let_def)
  next
    case False
    then have "dropFraction ?scaled mod 4294967296 = dropFraction ?scaled + 4294967296"
      using t by (intro neg_mod_eq) simp_all
    then show ?thesis using t False by (simp add: toInt32_def Let_def)
  qed
  finally show ?thesis using t by simp
qed

lemma length_setInt16: "length (setInt16 view k v) = length view"
  by (simp add: setInt16_def setUint16_def)

lemma setInt16_other:
  "j \<noteq> k \<Longrightarrow> j \<noteq> Suc k \<Longrightarrow> setInt16 view k v ! j = view ! j"
  by (simp add: setInt16_def setUint16_def)

lemma int16At_setInt16:
  assumes "k + 1 < length view" and "- 32768 \<le> v" and "v \<le> 32767"
  shows "int16At (setInt16 view k v) k = v"
proof -
  let ?m = "v mod 65536"
  have m: "0 \<le> ?m" "?m < 65536" by simp_all
  have bytes: "int (setInt16 view k v ! k) + 256 * int (setInt16 view k v ! (k + 1)) = ?m"
  proof -
    have "setInt16 view k v ! k = nat (?m mod 256)"
      using assms(1) by (simp add: setInt16_def setUint16_def)
    moreover have "setInt16 view k v ! (k + 1) = nat (?m div 256 mod 256)"
      using assms(1) by (simp add: setInt16_def setUint16_def)
    moreover have "?m div 256 mod 256 = ?m div 256" using m by simp
    ultimately show ?thesis using m by simp
  qed
  show ?thesis
  proof (cases "0 \<le> v")
    case True
    then have "?m = v" using assms(3) by simp
    then show ?thesis using bytes True assms(3) by (simp add: int16At_def Let_def)
  next
    case False
    then have "?m = v + 65536" using assms(2) by (intro neg_mod_eq) simp_all
    then show ?thesis using bytes False assms(2) by (simp add: int16At_def Let_def)
  qed
qed

lemma int16At_cong:
  "a ! k = b ! k \<Longrightarrow> a ! (k + 1) = b ! (k + 1) \<Longrightarrow> int16At a k = int16At b k"
  by (simp add: int16At_def)

lemma writeFrame_length:
  "length (fst (writeFrame channels pos offset view)) = length view"
  by (induction channels arbitrary: offset view) (simp_all add: length_setInt16)

lemma writeFrame_offset:
  "snd (writeFrame channels pos offset view) = offset + 2 * length channels"
  by (induction channels arbitrary: offset view) simp_all

lemma writeFrame_before:
  "j < 44 + offset \<Longrightarrow> fst (writeFrame channels pos offset view) ! j = view ! j"
  by (induction channels arbitrary: offset view) (simp_all add: setInt16_other)

lemma writeFrame_sample:
  assumes "i < length channels" and "44 + offset + 2 * length channels \<le> length view"
  shows "int16At (fst (writeFrame channels pos offset view)) (44 + offset + 2 * i)
       = scaleSample (channels ! i ! pos)"
  using assms
proof (induction channels arbitrary: offset view i)
  case Nil
  then show ?case by simp
next
  case (Cons channel remaining)
  let ?view = "setInt16 view (44 + offset) (scaleSample (channel ! pos))"
  show ?case
  proof (cases i)
    case 0
    have "int16At (fst (writeFrame remaining pos (offset + 2) ?view)) (44 + offset)
        = int16At ?view (44 + offset)"
      by (rule int16At_cong) (simp_all add: writeFrame_before)
    also have "\<dots> = scaleSample (channel ! pos)"
      using Cons.prems(2) scaleSample_eq [of "channel ! pos"]
      by (intro int16At_setInt16) simp_all
    finally show ?thesis using 0 by simp
  next
    case (Suc i')
    have "int16At (fst (writeFrame remaining pos (offset + 2) ?view)) (44 + (offset + 2) + 2 * i')
        = scaleSample (remaining ! i' ! pos)"
      using Cons.prems Suc by (intro Cons.IH) (simp_all add: length_setInt16)
    then show ?thesis using Suc by (simp add: add.assoc)
  qed
qed

lemma writeData_before:
  "j < 44 + offset \<Longrightarrow> writeData channels frames pos offset view ! j = view ! j"
proof (induction channels frames pos offset view rule: writeData.induct)
  case (1 channels frames pos offset view)
  show ?case
  proof (cases "pos < frames")
    case True
    obtain view' offset' where w: "writeFrame channels pos offset view = (view', offset')"
      by (cases "writeFrame channels pos offset view") auto
    have off: "offset' = offset + 2 * length channels"
      using writeFrame_offset [of channels pos offset view] w by simp
    have "view' ! j = view ! j"
      using writeFrame_before [OF "1.prems", of channels pos view] w by simp
    moreover have "writeData channels frames (Suc pos) offset' view' ! j = view' ! j"
      using "1.IH" [OF True w [symmetric]] "1.prems" off by simp
    ultimately show ?thesis using True w
      by (simp add: writeData.simps [of channels frames pos])
  next
    case False
    then show ?thesis by (simp add: writeData.simps [of channels frames pos])
  qed
qed

lemma writeData_sample:
  assumes "pos \<le> p" and "p < frames" and "i < length channels"
    and "44 + offset + 2 * length channels * (frames - pos) \<le> length view"
  shows "int16At (writeData channels frames pos offset view)
           (44 + offset + 2 * ((p - pos) * length channels + i))
       = scaleSample (channels ! i ! p)"
  using assms
proof (induction channels frames pos offset view rule: writeData.induct)
  case (1 channels frames pos offset view)
  let ?n = "length channels"
  have lt: "pos < frames" using "1.prems" by simp
  obtain view' offset' where w: "writeFrame channels pos offset view = (view', offset')"
    by (cases "writeFrame channels pos offset view") auto
  have off: "offset' = offset + 2 * ?n"
    using writeFrame_offset [of channels pos offset view] w by simp
  have len: "length view' = length view"
    using writeFrame_length [of channels pos offset view] w by simp
  have unfold: "writeData channels frames pos offset view
      = writeData channels frames (Suc pos) offset' view'"
    using lt w by (simp add: writeData.simps [of channels frames pos])
  have room: "?n * (frames - pos) = ?n + ?n * (frames - Suc pos)"
    using lt by (metis Suc_diff_Suc mult_Suc_right)
  show ?case
  proof (cases "p = pos")
    case True
    have fits: "44 + offset + 2 * ?n \<le> length view"
      using "1.prems"(4) room by simp
    have "int16At (writeData channels frames (Suc pos) offset' view') (44 + offset + 2 * i)
        = int16At view' (44 + offset + 2 * i)"
      using "1.prems"(3) off by (intro int16At_cong writeData_before) simp_all
    also have "\<dots> = scaleSample (channels ! i ! pos)"
      using writeFrame_sample [OF "1.prems"(3) fits, of pos] w by simp
    finally show ?thesis using True unfold by simp
  next
    case False
    then have le: "Suc pos \<le> p" using "1.prems"(1) by simp
    have fits: "44 + offset' + 2 * ?n * (frames - Suc pos) \<le> length view'"
      using "1.prems"(4) room off len by simp
    have index: "44 + offset + 2 * ((p - pos) * ?n + i)
        = 44 + offset' + 2 * ((p - Suc pos) * ?n + i)"
    proof -
      have "p - pos = Suc (p - Suc pos)" using le by simp
      then show ?thesis using off by simp
    qed
    have "int16At (writeData channels frames (Suc pos) offset' view')
           (44 + offset' + 2 * ((p - Suc pos) * ?n + i))
        = scaleSample (channels ! i ! p)"
      using "1.IH" [OF lt w [symmetric] le "1.prems"(2) "1.prems"(3) fits] .
    then show ?thesis unfolding unfold index .
  qed
qed

lemma length_setUint16: "length (setUint16 view k v) = length view"
  by (simp add: setUint16_def)

lemma length_setUint32: "length (setUint32 view k v) = length view"
  by (simp add: setUint32_def)

lemma length_wavHeader: "length (wavHeader buffer view) = length view"
  by (simp add: wavHeader_def Let_def length_setUint16 length_setUint32)

lemma audioBufferToWav_sample:
  assumes "44 \<le> pos" and "pos < length' buffer" and "i < numberOfChannels buffer"
  shows "int16At (audioBufferToWav buffer)
           (44 + 2 * ((pos - 44) * numberOfChannels buffer + i))
       = scaleSample (channelData buffer ! i ! pos)"
proof -
  let ?n = "numberOfChannels buffer"
  let ?view = "wavHeader buffer (replicate (length' buffer * ?n * 2 + 44) 0)"
  have "?n * (length' buffer - 44) \<le> ?n * length' buffer" by simp
  then have fits: "44 + 0 + 2 * length (channelData buffer) * (length' buffer - 44) \<le> length ?view"
    by (simp add: length_wavHeader numberOfChannels_def mult.commute)
  have i: "i < length (channelData buffer)" using assms(3) by (simp add: numberOfChannels_def)
  from writeData_sample [OF assms(1,2) i fits]
  show ?thesis by (simp add: audioBufferToWav_def Let_def numberOfChannels_def)
qed

text \<open>
  The lemmas above say what the loop writes for every buffer: the sample of the frame
  \<open>pos\<close>, for \<open>pos\<close> from 44 on, at the place of the frame \<open>pos - 44\<close>.
\<close>

text \<open>
  C2 at a mono buffer of 45 frames, the first 44 of the value 0.5 and the last of the
  value \<open>-0.25\<close>. By the claim every source sample is written, clamped, multiplied by
  32768 if negative and by 32767 otherwise, with the fraction dropped: 16383 for each of
  the first 44 frames and \<open>-8192\<close> for the last. The export has room for the 45 samples,
  from the byte 44 to the byte 133. The code writes one sample only, the last frame at the
  place of the first, and writes it as \<open>-8191\<close>, multiplied by 32767; all other places
  stay 0.
\<close>

theorem wav_export_frames:
  "scaleSample (- 1 / 4) = - 8191
   \<and> dropFraction (clamp (- 1 / 4) * 32768) = - 8192
   \<and> dropFraction (clamp (1 / 2) * 32767) = 16383
   \<and> length (audioBufferToWav \<lparr>length' = 45, sampleRate = 24000,
          channelData = [replicate 44 (1 / 2) @ [- 1 / 4]]\<rparr>) = 134
   \<and> int16At (audioBufferToWav \<lparr>length' = 45, sampleRate = 24000,
          channelData = [replicate 44 (1 / 2) @ [- 1 / 4]]\<rparr>) 44 = - 8191
   \<and> int16At (audioBufferToWav \<lparr>length' = 45, sampleRate = 24000,
          channelData = [replicate 44 (1 / 2) @ [- 1 / 4]]\<rparr>) 46 = 0
   \<and> int16At (audioBufferToWav \<lparr>length' = 45, sampleRate = 24000,
          channelData = [replicate 44 (1 / 2) @ [- 1 / 4]]\<rparr>) 132 = 0"
proof -
  let ?buffer = "\<lparr>length' = 45, sampleRate = 24000,
          channelData = [replicate 44 (1 / 2) @ [- 1 / 4 :: rat]]\<rparr>"
  have scaled: "scaleSample (- 1 / 4) = - 8191"
    by (simp add: scaleSample_def clamp_def toInt32_def dropFraction_def Let_def
        floor_rat_numeral)
  have sample: "channelData ?buffer ! 0 ! 44 = - 1 / 4" by (simp add: nth_append)
  have bytes: "audioBufferToWav ?buffer
      = setInt16 (wavHeader ?buffer (replicate 134 0)) 44 (- 8191)"
    using scaled
    by (simp add: audioBufferToWav_def numberOfChannels_def Let_def nth_append
        writeData.simps [of _ 45 44] writeData.simps [of _ 45 45])
  have len: "length (audioBufferToWav ?buffer) = 134"
    unfolding bytes
    by (simp add: setInt16_def setUint16_def setUint32_def wavHeader_def Let_def)
  have written: "int16At (audioBufferToWav ?buffer) 44 = - 8191"
    unfolding bytes
    by (simp add: int16At_def setInt16_def setUint16_def setUint32_def wavHeader_def Let_def)
  have next_one: "int16At (audioBufferToWav ?buffer) 46 = 0"
    unfolding bytes
    by (simp add: int16At_def setInt16_def setUint16_def setUint32_def wavHeader_def Let_def)
  have last_one: "int16At (audioBufferToWav ?buffer) 132 = 0"
    unfolding bytes
    by (simp add: int16At_def setInt16_def setUint16_def setUint32_def wavHeader_def Let_def)
  have claimed: "dropFraction (clamp (- 1 / 4) * 32768) = - 8192"
    "dropFraction (clamp (1 / 2) * 32767) = 16383"
    by (simp_all add: clamp_def dropFraction_def floor_rat_numeral)
  from scaled claimed len written next_one last_one show ?thesis by simp
qed

end
